theory Spec2Isabelle
  imports Complex_Main "HOL-Library.Char_ord" "HOL-Library.List_Lexorder" "HOL-Library.Log_Nat"
begin

section \<open>Numbers\<close>

text \<open>
  Token counts are JavaScript numbers holding integers; they are modelled as \<open>int\<close>.
  Every other number is a double, modelled as the rational it denotes.  The result of a
  division, a product or a sum of doubles is the exact result rounded to the nearest
  double, a tie going to the even significand (binary64: 53 significant bits).  Results
  that overflow or are subnormal do not arise from counts, percentages and costs and are
  not modelled.
\<close>

text \<open>
  The binary exponent \<open>e\<close> of a positive rational, \<open>2 ^ e \<le> a < 2 ^ (e + 1)\<close>, found from
  the bit lengths of its numerator and denominator.
\<close>

definition exponentOf :: "rat \<Rightarrow> int" where
  "exponentOf a =
     (let pq = quotient_of a;
          d = bitlen (fst pq) - bitlen (snd pq)
      in if 2 powi d \<le> a then d else d - 1)"

definition roundEven :: "rat \<Rightarrow> int" where
  "roundEven y =
     (let f = \<lfloor>y\<rfloor>; r = y - of_int f
      in if r < 1 / 2 then f else if r > 1 / 2 then f + 1 else if even f then f else f + 1)"

text \<open>Rounding to the nearest double.\<close>

definition fl :: "rat \<Rightarrow> rat" where
  "fl x =
     (if x = 0 then 0
      else (let a = \<bar>x\<bar>;
                ulp = 2 powi (exponentOf a - 52);
                m = roundEven (a / ulp)
            in sgn x * (of_int m * ulp)))"

definition fdiv :: "rat \<Rightarrow> rat \<Rightarrow> rat" where
  "fdiv a b = fl (a / b)"

definition fmul :: "rat \<Rightarrow> rat \<Rightarrow> rat" where
  "fmul a b = fl (a * b)"

definition fadd :: "rat \<Rightarrow> rat \<Rightarrow> rat" where
  "fadd a b = fl (a + b)"

text \<open>
  \<open>Math.round\<close> gives the integer nearest to a double, a half going up; the result is
  exact.
\<close>

definition Math_round :: "rat \<Rightarrow> int" where
  "Math_round x = \<lfloor>x + 1 / 2\<rfloor>"

text \<open>\<open>value ?? 0\<close> on an optional number.\<close>

definition orZero :: "int option \<Rightarrow> int" where
  "orZero v = (case v of None \<Rightarrow> 0 | Some n \<Rightarrow> n)"

section \<open>Strings\<close>

text \<open>
  Strings are byte lists.  \<open>String(n)\<close> on an integral number writes its decimal digits,
  \<open>padStart(2, "0")\<close> pads on the left and \<open>startsWith\<close> compares a prefix.
\<close>

definition digitChar :: "nat \<Rightarrow> char" where
  "digitChar n = char_of (48 + n)"

fun showNat :: "nat \<Rightarrow> string" where
  "showNat n = (if n < 10 then [digitChar n] else showNat (n div 10) @ [digitChar (n mod 10)])"

declare showNat.simps [simp del]

definition String_of :: "int \<Rightarrow> string" where
  "String_of n = (if n < 0 then CHR ''-'' # showNat (nat (- n)) else showNat (nat n))"

definition padStart2 :: "string \<Rightarrow> string" where
  "padStart2 s = replicate (2 - length s) CHR ''0'' @ s"

definition startsWith :: "string \<Rightarrow> string \<Rightarrow> bool" where
  "startsWith s p = (take (length p) s = p)"

text \<open>
  \<open>String.prototype.trim\<close> strips white space and line terminators from both ends.  A
  string is the UTF-8 encoding of its text; the code points stripped are U+0009 to
  U+000D, U+0020, U+00A0, U+1680, U+2000 to U+200A, U+2028, U+2029, U+202F, U+205F,
  U+3000 and U+FEFF, each listed here by its bytes.
\<close>

definition whiteSpace :: "string list" where
  "whiteSpace =
     [[CHR 0x09], [CHR 0x0A], [CHR 0x0B], [CHR 0x0C], [CHR 0x0D], [CHR 0x20],
      [CHR 0xC2, CHR 0xA0],
      [CHR 0xE1, CHR 0x9A, CHR 0x80],
      [CHR 0xE2, CHR 0x80, CHR 0x80], [CHR 0xE2, CHR 0x80, CHR 0x81],
      [CHR 0xE2, CHR 0x80, CHR 0x82], [CHR 0xE2, CHR 0x80, CHR 0x83],
      [CHR 0xE2, CHR 0x80, CHR 0x84], [CHR 0xE2, CHR 0x80, CHR 0x85],
      [CHR 0xE2, CHR 0x80, CHR 0x86], [CHR 0xE2, CHR 0x80, CHR 0x87],
      [CHR 0xE2, CHR 0x80, CHR 0x88], [CHR 0xE2, CHR 0x80, CHR 0x89],
      [CHR 0xE2, CHR 0x80, CHR 0x8A],
      [CHR 0xE2, CHR 0x80, CHR 0xA8], [CHR 0xE2, CHR 0x80, CHR 0xA9],
      [CHR 0xE2, CHR 0x80, CHR 0xAF],
      [CHR 0xE2, CHR 0x81, CHR 0x9F],
      [CHR 0xE3, CHR 0x80, CHR 0x80],
      [CHR 0xEF, CHR 0xBB, CHR 0xBF]]"

text \<open>Dropping, from the start of a string, every leading occurrence of the given words.\<close>

function stripPrefixes :: "string list \<Rightarrow> string \<Rightarrow> string" where
  "stripPrefixes ws s =
     (case List.find (\<lambda>w. w \<noteq> [] \<and> startsWith s w) ws of
        None \<Rightarrow> s
      | Some w \<Rightarrow> stripPrefixes ws (drop (length w) s))"
  by pat_completeness auto
termination
proof (relation "measure (\<lambda>(ws, s). length s)")
  show "wf (measure (\<lambda>(ws, s). length s))"
    by simp
next
  fix ws :: "string list" and s w :: string
  assume "List.find (\<lambda>w. w \<noteq> [] \<and> startsWith s w) ws = Some w"
  then have "w \<noteq> []" and "take (length w) s = w"
    by (auto simp: find_Some_iff startsWith_def)
  then have "s \<noteq> []"
    by auto
  then show "((ws, drop (length w) s), (ws, s)) \<in> measure (\<lambda>(ws, s). length s)"
    using \<open>w \<noteq> []\<close> by simp
qed

declare stripPrefixes.simps [simp del]

definition trim :: "string \<Rightarrow> string" where
  "trim s = rev (stripPrefixes (map rev whiteSpace) (rev (stripPrefixes whiteSpace s)))"

definition isDigit :: "char \<Rightarrow> bool" where
  "isDigit c = (48 \<le> (of_char c :: nat) \<and> (of_char c :: nat) \<le> 57)"

definition digitsValue :: "string \<Rightarrow> nat" where
  "digitsValue s = foldl (\<lambda>acc c. 10 * acc + (of_char c - 48)) 0 s"

section \<open>Dates\<close>

text \<open>
  A \<open>Date\<close> is its time value: milliseconds since 1970-01-01T00:00Z.  The local calendar
  is that of a zone with a fixed offset \<open>tz\<close>, in minutes east of UTC.  The Gregorian
  calendar is computed from the day number, day 0 being 1970-01-01, a Thursday.
\<close>

definition msPerDay :: int where
  "msPerDay = 86400000"

definition days_from_civil :: "int \<Rightarrow> int \<Rightarrow> int \<Rightarrow> int" where
  "days_from_civil y m d =
     (let y1 = (if m \<le> 2 then y - 1 else y);
          era = y1 div 400;
          yoe = y1 - era * 400;
          mp = (m + 9) mod 12;
          doy = (153 * mp + 2) div 5 + d - 1;
          doe = yoe * 365 + yoe div 4 - yoe div 100 + doy
      in era * 146097 + doe - 719468)"

definition civil_from_days :: "int \<Rightarrow> int \<times> int \<times> int" where
  "civil_from_days z0 =
     (let z = z0 + 719468;
          era = z div 146097;
          doe = z - era * 146097;
          yoe = (doe - doe div 1460 + doe div 36524 - doe div 146096) div 365;
          doy = doe - (365 * yoe + yoe div 4 - yoe div 100);
          mp = (5 * doy + 2) div 153;
          d = doy - (153 * mp + 2) div 5 + 1;
          m = (if mp < 10 then mp + 3 else mp - 9);
          y = yoe + era * 400
      in (if m \<le> 2 then y + 1 else y, m, d))"

definition localDay :: "int \<Rightarrow> int \<Rightarrow> int" where
  "localDay tz t = (t + tz * 60000) div msPerDay"

definition getFullYear :: "int \<Rightarrow> int \<Rightarrow> int" where
  "getFullYear tz t = fst (civil_from_days (localDay tz t))"

definition getMonth :: "int \<Rightarrow> int \<Rightarrow> int" where
  "getMonth tz t = fst (snd (civil_from_days (localDay tz t))) - 1"

definition getDate :: "int \<Rightarrow> int \<Rightarrow> int" where
  "getDate tz t = snd (snd (civil_from_days (localDay tz t)))"

definition getDay :: "int \<Rightarrow> int \<Rightarrow> nat" where
  "getDay tz t = nat ((localDay tz t + 4) mod 7)"

text \<open>\<open>formatDateKey\<close> (collector.ts 654--659): the local date as \<open>YYYY-MM-DD\<close>.\<close>

definition formatDateKey :: "int \<Rightarrow> int \<Rightarrow> string" where
  "formatDateKey tz date =
     (let year = getFullYear tz date;
          month = padStart2 (String_of (getMonth tz date + 1));
          day = padStart2 (String_of (getDate tz date))
      in String_of year @ ''-'' @ month @ ''-'' @ day)"

text \<open>
  \<open>new Date(s)\<close> on a date-only string \<open>YYYY-MM-DD\<close>: ECMAScript reads the date-only form
  as midnight UTC of that day.  Every other string is an invalid date here (\<open>None\<close>, the
  time value \<open>NaN\<close>); the date keys of this program are all of the date-only form.  A day
  of the month up to 31 is accepted in every month and counted on from the month's first
  day.
\<close>

definition Date_parse :: "string \<Rightarrow> int option" where
  "Date_parse s =
     (if length s = 10 \<and> s ! 4 = CHR ''-'' \<and> s ! 7 = CHR ''-''
         \<and> list_all isDigit (take 4 s) \<and> list_all isDigit (take 2 (drop 5 s))
         \<and> list_all isDigit (drop 8 s)
      then (let y = int (digitsValue (take 4 s));
                m = int (digitsValue (take 2 (drop 5 s)));
                d = int (digitsValue (drop 8 s))
            in if 1 \<le> m \<and> m \<le> 12 \<and> 1 \<le> d \<and> d \<le> 31
               then Some (days_from_civil y m d * msPerDay) else None)
      else None)"

section \<open>Insertion-ordered maps and sets\<close>

text \<open>
  A JavaScript \<open>Map\<close> (and the own keys of an object) keeps insertion order: it is an
  association list with distinct keys; \<open>set\<close> on a present key replaces the value in
  place.  A \<open>Set\<close> of strings is a list without duplicates.
\<close>

fun map_set :: "('k \<times> 'v) list \<Rightarrow> 'k \<Rightarrow> 'v \<Rightarrow> ('k \<times> 'v) list" where
  "map_set [] k v = [(k, v)]"
| "map_set ((k', v') # m) k v = (if k' = k then (k, v) # m else (k', v') # map_set m k v)"

definition map_get0 :: "('k \<times> int) list \<Rightarrow> 'k \<Rightarrow> int" where
  "map_get0 m k = (case map_of m k of None \<Rightarrow> 0 | Some v \<Rightarrow> v)"

definition set_add :: "'a list \<Rightarrow> 'a \<Rightarrow> 'a list" where
  "set_add xs x = (if x \<in> set xs then xs else xs @ [x])"

section \<open>The stats cache (collector.ts, \<open>ClaudeStatsCache\<close>)\<close>

record ModelUsage =
  inputTokens :: "int option"
  outputTokens :: "int option"
  cacheReadInputTokens :: "int option"
  cacheCreationInputTokens :: "int option"
  webSearchRequests :: "int option"
  costUSD :: "rat option"
  contextWindow :: "int option"

record DailyActivityEntry =
  d_date :: string
  d_messageCount :: "int option"
  d_sessionCount :: "int option"
  d_toolCallCount :: "int option"

record DailyModelTokens =
  t_date :: string
  t_tokensByModel :: "(string \<times> int) list option"

record ClaudeStatsCache =
  sc_dailyActivity :: "DailyActivityEntry list option"
  sc_dailyModelTokens :: "DailyModelTokens list option"
  sc_modelUsage :: "(string \<times> ModelUsage) list option"
  sc_firstSessionDate :: "string option"

text \<open>\<open>x ?? []\<close> and \<open>x ?? {}\<close> on an optional array or object.\<close>

definition orEmpty :: "'a list option \<Rightarrow> 'a list" where
  "orEmpty v = (case v of None \<Rightarrow> [] | Some xs \<Rightarrow> xs)"

section \<open>The usage summary (collector.ts, \<open>ClaudeUsageSummary\<close>)\<close>

record ClaudeUsageSummary =
  u_totalInputTokens :: int
  u_totalOutputTokens :: int
  u_totalCacheCreationTokens :: int
  u_totalCacheReadTokens :: int
  u_totalTokens :: int
  u_totalCostUSD :: rat
  u_modelTokenTotals :: "(string \<times> int) list"
  u_firstTimestamp :: "int option"
  u_dailyActivity :: "(string \<times> int) list"
  u_totalMessages :: int
  u_totalSessions :: int

section \<open>The usage reducer (collector.ts, \<open>collectClaudeUsageSummary\<close>)\<close>

text \<open>
  A parsed log record, read at the fields the reducer reads.  \<open>e_timestamp\<close> is the time
  value of \<open>new Date(entry.timestamp)\<close>: \<open>None\<close> when the field is neither a number nor a
  string or the date is invalid (both are skipped).  Identifiers, the session and the
  model are strings when present; the cost is present when it is a finite number; a
  token field is present when it is a finite number.
\<close>

record UsageBlock =
  input_tokens :: "int option"
  output_tokens :: "int option"
  cache_creation_input_tokens :: "int option"
  cache_read_input_tokens :: "int option"

record Entry =
  e_timestamp :: "int option"
  e_sessionId :: "string option"
  e_requestId :: "string option"
  e_messageId :: "string option"
  e_model :: "string option"
  e_usage :: "UsageBlock option"
  e_costUSD :: "rat option"

definition ensureNumber :: "int option \<Rightarrow> int" where
  "ensureNumber v = (case v of Some n \<Rightarrow> n | None \<Rightarrow> 0)"

text \<open>\<open>createUniqueHash\<close> (lines 574--580); the empty string is falsy.\<close>

definition createUniqueHash :: "Entry \<Rightarrow> string option" where
  "createUniqueHash entry =
     (case e_messageId entry of
        None \<Rightarrow> None
      | Some messageId \<Rightarrow>
          (case e_requestId entry of
             None \<Rightarrow> None
           | Some requestId \<Rightarrow>
               if messageId = [] \<or> requestId = [] then None
               else Some (messageId @ '':'' @ requestId)))"

text \<open>The per-record token total of line 524.\<close>

definition entryTotalOf :: "UsageBlock \<Rightarrow> int" where
  "entryTotalOf usage =
     ensureNumber (input_tokens usage) + ensureNumber (output_tokens usage)
       + ensureNumber (cache_creation_input_tokens usage)
       + ensureNumber (cache_read_input_tokens usage)"

text \<open>
  The variables of one run.  \<open>'p\<close> is the type of a model's unit prices
  (\<open>ModelPricing\<close>, of pricing.ts); a cached \<open>None\<close> is the \<open>null\<close> of a model without a
  price.
\<close>

record 'p CollectState =
  r_modelTokenTotals :: "(string \<times> int) list"
  r_pricingCache :: "(string \<times> 'p option) list"
  r_processedHashes :: "string list"
  r_dailyActivity :: "(string \<times> int) list"
  r_sessionIds :: "string list"
  r_totalInputTokens :: int
  r_totalOutputTokens :: int
  r_totalCacheCreationTokens :: int
  r_totalCacheReadTokens :: int
  r_totalTokens :: int
  r_totalCostUSD :: rat
  r_firstTimestamp :: "int option"
  r_totalMessages :: int

definition initialState :: "'p CollectState" where
  "initialState =
     \<lparr>r_modelTokenTotals = [], r_pricingCache = [], r_processedHashes = [],
      r_dailyActivity = [], r_sessionIds = [], r_totalInputTokens = 0,
      r_totalOutputTokens = 0, r_totalCacheCreationTokens = 0, r_totalCacheReadTokens = 0,
      r_totalTokens = 0, r_totalCostUSD = 0, r_firstTimestamp = None, r_totalMessages = 0\<rparr>"

text \<open>
  Lines 520--554: the usage block of a record of the requested year.  \<open>getModelPricing\<close>
  and \<open>calculateCostUSD\<close> are the functions of pricing.ts, taken as parameters; the
  latter takes the input, output, cache-creation and cache-read token counts.
\<close>

definition reduceUsage ::
  "(string \<Rightarrow> 'p option) \<Rightarrow> (int \<Rightarrow> int \<Rightarrow> int \<Rightarrow> int \<Rightarrow> 'p \<Rightarrow> rat)
     \<Rightarrow> Entry \<Rightarrow> UsageBlock \<Rightarrow> 'p CollectState \<Rightarrow> 'p CollectState" where
  "reduceUsage getModelPricing calculateCostUSD entry usage st =
     (let input = ensureNumber (input_tokens usage);
          output = ensureNumber (output_tokens usage);
          cacheCreate = ensureNumber (cache_creation_input_tokens usage);
          cacheRead = ensureNumber (cache_read_input_tokens usage);
          entryTotal = input + output + cacheCreate + cacheRead;
          hasCost = (e_costUSD entry \<noteq> None);
          st1 = st\<lparr>r_totalInputTokens := r_totalInputTokens st + input,
                   r_totalOutputTokens := r_totalOutputTokens st + output,
                   r_totalCacheCreationTokens := r_totalCacheCreationTokens st + cacheCreate,
                   r_totalCacheReadTokens := r_totalCacheReadTokens st + cacheRead,
                   r_totalTokens := r_totalTokens st + entryTotal\<rparr>
      in case e_model entry of
           None \<Rightarrow> st1
         | Some model \<Rightarrow>
             if trim model = [] then st1
             else (let st2 = st1\<lparr>r_modelTokenTotals :=
                                   map_set (r_modelTokenTotals st1) model
                                     (map_get0 (r_modelTokenTotals st1) model + entryTotal)\<rparr>
                   in if \<not> hasCost \<and> entryTotal > 0
                      then (let cached = map_of (r_pricingCache st2) model;
                                pricing = (case cached of
                                             Some p \<Rightarrow> p
                                           | None \<Rightarrow> getModelPricing model);
                                st3 = (case cached of
                                         Some p \<Rightarrow> st2
                                       | None \<Rightarrow>
                                           st2\<lparr>r_pricingCache :=
                                                 map_set (r_pricingCache st2) model pricing\<rparr>)
                            in case pricing of
                                 None \<Rightarrow> st3
                               | Some pr \<Rightarrow>
                                   st3\<lparr>r_totalCostUSD :=
                                          fadd (r_totalCostUSD st3)
                                            (calculateCostUSD input output cacheCreate cacheRead pr)\<rparr>)
                      else st2))"

text \<open>Lines 480--554: one parsed record.\<close>

definition processEntry ::
  "int \<Rightarrow> int \<Rightarrow> (string \<Rightarrow> 'p option) \<Rightarrow> (int \<Rightarrow> int \<Rightarrow> int \<Rightarrow> int \<Rightarrow> 'p \<Rightarrow> rat)
     \<Rightarrow> Entry \<Rightarrow> 'p CollectState \<Rightarrow> 'p CollectState" where
  "processEntry tz year getModelPricing calculateCostUSD entry st =
     (let uniqueHash = createUniqueHash entry in
      if (case uniqueHash of None \<Rightarrow> False | Some h \<Rightarrow> h \<in> set (r_processedHashes st))
      then st
      else (let st1 = (case uniqueHash of
                         None \<Rightarrow> st
                       | Some h \<Rightarrow> st\<lparr>r_processedHashes := set_add (r_processedHashes st) h\<rparr>)
            in case e_timestamp entry of
                 None \<Rightarrow> st1
               | Some entryDate \<Rightarrow>
                   if getFullYear tz entryDate \<noteq> year then st1
                   else (let dateKey = formatDateKey tz entryDate;
                             st2 = st1\<lparr>r_firstTimestamp :=
                                        (case r_firstTimestamp st1 of
                                           None \<Rightarrow> Some entryDate
                                         | Some f \<Rightarrow> if entryDate < f then Some entryDate else Some f),
                                      r_dailyActivity :=
                                        map_set (r_dailyActivity st1) dateKey
                                          (map_get0 (r_dailyActivity st1) dateKey + 1),
                                      r_totalMessages := r_totalMessages st1 + 1,
                                      r_sessionIds :=
                                        (case e_sessionId entry of
                                           None \<Rightarrow> r_sessionIds st1
                                         | Some sessionId \<Rightarrow>
                                             if sessionId = [] then r_sessionIds st1
                                             else set_add (r_sessionIds st1) sessionId)\<rparr>;
                             st3 = (case e_costUSD entry of
                                      None \<Rightarrow> st2
                                    | Some rawCost \<Rightarrow>
                                        st2\<lparr>r_totalCostUSD := fadd (r_totalCostUSD st2) rawCost\<rparr>)
                         in case e_usage entry of
                              None \<Rightarrow> st3
                            | Some usage \<Rightarrow>
                                reduceUsage getModelPricing calculateCostUSD entry usage st3)))"

text \<open>
  A line of a log file: \<open>None\<close> when it is blank, is not JSON or is not an object (lines
  469--478).  A file is its lines, a root its files in the order of the scan.
\<close>

definition processLine ::
  "int \<Rightarrow> int \<Rightarrow> (string \<Rightarrow> 'p option) \<Rightarrow> (int \<Rightarrow> int \<Rightarrow> int \<Rightarrow> int \<Rightarrow> 'p \<Rightarrow> rat)
     \<Rightarrow> Entry option \<Rightarrow> 'p CollectState \<Rightarrow> 'p CollectState" where
  "processLine tz year getModelPricing calculateCostUSD line st =
     (case line of
        None \<Rightarrow> st
      | Some entry \<Rightarrow> processEntry tz year getModelPricing calculateCostUSD entry st)"

definition processFiles ::
  "int \<Rightarrow> int \<Rightarrow> (string \<Rightarrow> 'p option) \<Rightarrow> (int \<Rightarrow> int \<Rightarrow> int \<Rightarrow> int \<Rightarrow> 'p \<Rightarrow> rat)
     \<Rightarrow> Entry option list list \<Rightarrow> 'p CollectState \<Rightarrow> 'p CollectState" where
  "processFiles tz year getModelPricing calculateCostUSD files st =
     fold (\<lambda>file. fold (processLine tz year getModelPricing calculateCostUSD) file) files st"

definition summaryOf :: "'p CollectState \<Rightarrow> ClaudeUsageSummary" where
  "summaryOf st =
     \<lparr>u_totalInputTokens = r_totalInputTokens st,
      u_totalOutputTokens = r_totalOutputTokens st,
      u_totalCacheCreationTokens = r_totalCacheCreationTokens st,
      u_totalCacheReadTokens = r_totalCacheReadTokens st,
      u_totalTokens = r_totalTokens st,
      u_totalCostUSD = r_totalCostUSD st,
      u_modelTokenTotals = r_modelTokenTotals st,
      u_firstTimestamp = r_firstTimestamp st,
      u_dailyActivity = r_dailyActivity st,
      u_totalMessages = r_totalMessages st,
      u_totalSessions = int (length (r_sessionIds st))\<rparr>"

definition collectClaudeUsageSummary ::
  "int \<Rightarrow> int \<Rightarrow> (string \<Rightarrow> 'p option) \<Rightarrow> (int \<Rightarrow> int \<Rightarrow> int \<Rightarrow> int \<Rightarrow> 'p \<Rightarrow> rat)
     \<Rightarrow> Entry option list list list \<Rightarrow> ClaudeUsageSummary" where
  "collectClaudeUsageSummary tz year getModelPricing calculateCostUSD roots =
     summaryOf
       (fold (processFiles tz year getModelPricing calculateCostUSD) roots initialState)"

text \<open>
  A line whose record carries both identifiers (a blank or malformed line carries no
  record), a line whose record, if any, is not of the requested year, the identity key
  of a line, and a line whose record, if any, has no negative token count.
\<close>

definition identified :: "Entry option \<Rightarrow> bool" where
  "identified line = (case line of None \<Rightarrow> True | Some entry \<Rightarrow> createUniqueHash entry \<noteq> None)"

definition allIdentified :: "Entry option list list list \<Rightarrow> bool" where
  "allIdentified roots = list_all (list_all (list_all identified)) roots"

definition outsideYear :: "int \<Rightarrow> int \<Rightarrow> Entry option \<Rightarrow> bool" where
  "outsideYear tz year line =
     (case line of
        None \<Rightarrow> True
      | Some entry \<Rightarrow>
          (case e_timestamp entry of
             None \<Rightarrow> True
           | Some entryDate \<Rightarrow> getFullYear tz entryDate \<noteq> year))"

definition noEventInYear :: "int \<Rightarrow> int \<Rightarrow> Entry option list list list \<Rightarrow> bool" where
  "noEventInYear tz year roots = list_all (list_all (list_all (outsideYear tz year))) roots"

definition lineHash :: "Entry option \<Rightarrow> string option" where
  "lineHash line = (case line of None \<Rightarrow> None | Some entry \<Rightarrow> createUniqueHash entry)"

text \<open>A date key that the reducer writes for some time of the requested year.\<close>

definition keyOfYear :: "int \<Rightarrow> int \<Rightarrow> string \<Rightarrow> bool" where
  "keyOfYear tz yr k = (\<exists>t. k = formatDateKey tz t \<and> getFullYear tz t = yr)"

definition nonNegativeTokens :: "Entry option \<Rightarrow> bool" where
  "nonNegativeTokens line =
     (case line of
        None \<Rightarrow> True
      | Some entry \<Rightarrow>
          (case e_usage entry of
             None \<Rightarrow> True
           | Some usage \<Rightarrow>
               0 \<le> ensureNumber (input_tokens usage) \<and> 0 \<le> ensureNumber (output_tokens usage)
               \<and> 0 \<le> ensureNumber (cache_creation_input_tokens usage)
               \<and> 0 \<le> ensureNumber (cache_read_input_tokens usage)))"

text \<open>
  A line whose record, if it has a usage block, names a model (an identifier that is not
  empty or all white space), and logs all of whose lines do, or have no negative token
  count.
\<close>

definition usageHasModel :: "Entry option \<Rightarrow> bool" where
  "usageHasModel line =
     (case line of
        None \<Rightarrow> True
      | Some entry \<Rightarrow>
          (case e_usage entry of
             None \<Rightarrow> True
           | Some usage \<Rightarrow>
               (case e_model entry of None \<Rightarrow> False | Some model \<Rightarrow> trim model \<noteq> [])))"

definition allUsageWithModel :: "Entry option list list list \<Rightarrow> bool" where
  "allUsageWithModel roots = list_all (list_all (list_all usageHasModel)) roots"

definition nonNegativeLogs :: "Entry option list list list \<Rightarrow> bool" where
  "nonNegativeLogs roots = list_all (list_all (list_all nonNegativeTokens)) roots"

text \<open>
  Two invariants of a run: the total is the sum of the four token scalars, none of which
  is negative; and the per-model totals add up to the total, none is negative and no
  model is listed twice.
\<close>

definition scalarsInv :: "'p CollectState \<Rightarrow> bool" where
  "scalarsInv st =
     (r_totalTokens st
        = r_totalInputTokens st + r_totalOutputTokens st + r_totalCacheCreationTokens st
            + r_totalCacheReadTokens st
      \<and> 0 \<le> r_totalInputTokens st \<and> 0 \<le> r_totalOutputTokens st
      \<and> 0 \<le> r_totalCacheCreationTokens st \<and> 0 \<le> r_totalCacheReadTokens st)"

definition modelsInv :: "'p CollectState \<Rightarrow> bool" where
  "modelsInv st =
     (sum_list (map snd (r_modelTokenTotals st)) = r_totalTokens st
      \<and> list_all (\<lambda>e. 0 \<le> snd e) (r_modelTokenTotals st)
      \<and> distinct (map fst (r_modelTokenTotals st)))"

section \<open>Per-model apportionment (stats.ts, the body of the model loop)\<close>

record Components =
  c_inputTokens :: int
  c_outputTokens :: int
  c_cachedInputTokens :: int
  c_cacheCreationTokens :: int

definition usageTotalOf :: "ModelUsage \<Rightarrow> int" where
  "usageTotalOf u =
     orZero (inputTokens u) + orZero (outputTokens u)
       + orZero (cacheReadInputTokens u) + orZero (cacheCreationInputTokens u)"

text \<open>
  Lines 114--138 of stats.ts: the components start as \<open>(tokens, 0, 0, 0)\<close>; with a usage
  record of positive total they are the rounded scaled fields, the input component
  taking the drift.
\<close>

definition apportion :: "int \<Rightarrow> ModelUsage option \<Rightarrow> Components" where
  "apportion tokens usage =
     (case usage of
        None \<Rightarrow> \<lparr>c_inputTokens = tokens, c_outputTokens = 0,
                 c_cachedInputTokens = 0, c_cacheCreationTokens = 0\<rparr>
      | Some u \<Rightarrow>
          (let usageInput = orZero (inputTokens u);
               usageOutput = orZero (outputTokens u);
               usageCacheRead = orZero (cacheReadInputTokens u);
               usageCacheCreate = orZero (cacheCreationInputTokens u);
               usageTotal = usageInput + usageOutput + usageCacheRead + usageCacheCreate
           in if usageTotal > 0 then
                (let ratio = fdiv (of_int tokens) (of_int usageTotal);
                     inputTokens0 = Math_round (fmul (of_int usageInput) ratio);
                     outputTokens0 = Math_round (fmul (of_int usageOutput) ratio);
                     cachedInputTokens0 = Math_round (fmul (of_int usageCacheRead) ratio);
                     cacheCreationTokens0 = Math_round (fmul (of_int usageCacheCreate) ratio);
                     scaledTotal = inputTokens0 + outputTokens0 + cachedInputTokens0
                                     + cacheCreationTokens0
                 in \<lparr>c_inputTokens =
                        (if scaledTotal \<noteq> tokens then inputTokens0 + (tokens - scaledTotal)
                         else inputTokens0),
                      c_outputTokens = outputTokens0,
                      c_cachedInputTokens = cachedInputTokens0,
                      c_cacheCreationTokens = cacheCreationTokens0\<rparr>)
              else \<lparr>c_inputTokens = tokens, c_outputTokens = 0,
                     c_cachedInputTokens = 0, c_cacheCreationTokens = 0\<rparr>))"

text \<open>
  The double \<open>usageField * ratio\<close> of lines 127--131, with \<open>ratio = tokens / usageTotal\<close>.
\<close>

definition scaled :: "int \<Rightarrow> int \<Rightarrow> int \<Rightarrow> rat" where
  "scaled usageField tokens usageTotal =
     fmul (of_int usageField) (fdiv (of_int tokens) (of_int usageTotal))"

definition componentSum :: "Components \<Rightarrow> int" where
  "componentSum c =
     c_inputTokens c + c_outputTokens c + c_cachedInputTokens c + c_cacheCreationTokens c"

section \<open>The stats merger (stats.ts, \<open>calculateStats\<close>)\<close>

subsection \<open>Daily activity, sessions, messages and tool calls (lines 14--61)\<close>

record DailyAcc =
  a_dailyActivity :: "(string \<times> int) list"
  a_weekdayCounts :: "int list"
  a_totalMessages :: int
  a_totalSessions :: int
  a_totalToolCalls :: int

text \<open>
  One round of the loop over the live daily-activity map (lines 23--31).  An invalid date
  has the year \<open>NaN\<close>, which differs from every requested year.
\<close>

definition liveDailyStep :: "int \<Rightarrow> int \<Rightarrow> string \<times> int \<Rightarrow> DailyAcc \<Rightarrow> DailyAcc" where
  "liveDailyStep tz year e a =
     (case e of (entryDate, messageCount) \<Rightarrow>
        (case Date_parse entryDate of
           None \<Rightarrow> a
         | Some t \<Rightarrow>
             if getFullYear tz t \<noteq> year then a
             else a\<lparr>a_dailyActivity := map_set (a_dailyActivity a) entryDate messageCount,
                    a_totalMessages := a_totalMessages a + messageCount,
                    a_weekdayCounts := (a_weekdayCounts a)
                      [getDay tz t := a_weekdayCounts a ! getDay tz t + messageCount]\<rparr>))"

text \<open>One round of the loop over the cache's day entries (lines 34--48).\<close>

definition cacheDailyStep :: "int \<Rightarrow> int \<Rightarrow> DailyActivityEntry \<Rightarrow> DailyAcc \<Rightarrow> DailyAcc" where
  "cacheDailyStep tz year entry a =
     (let entryDate = d_date entry in
      if entryDate = [] then a
      else (case Date_parse entryDate of
              None \<Rightarrow> a
            | Some t \<Rightarrow>
                if getFullYear tz t \<noteq> year then a
                else (let messageCount = orZero (d_messageCount entry) in
                      a\<lparr>a_dailyActivity := map_set (a_dailyActivity a) entryDate messageCount,
                        a_totalMessages := a_totalMessages a + messageCount,
                        a_totalSessions := a_totalSessions a + orZero (d_sessionCount entry),
                        a_totalToolCalls := a_totalToolCalls a + orZero (d_toolCallCount entry),
                        a_weekdayCounts := (a_weekdayCounts a)
                          [getDay tz t := a_weekdayCounts a ! getDay tz t + messageCount]\<rparr>)))"

definition mergeDaily :: "int \<Rightarrow> int \<Rightarrow> ClaudeStatsCache \<Rightarrow> ClaudeUsageSummary \<Rightarrow> DailyAcc" where
  "mergeDaily tz year statsCache usageSummary =
     (let a0 = \<lparr>a_dailyActivity = [], a_weekdayCounts = replicate 7 0, a_totalMessages = 0,
                a_totalSessions = 0, a_totalToolCalls = 0\<rparr>;
          usageDailyActivity = u_dailyActivity usageSummary;
          a1 = (if length usageDailyActivity > 0
                then (fold (liveDailyStep tz year) usageDailyActivity a0)
                       \<lparr>a_totalSessions := u_totalSessions usageSummary\<rparr>
                else fold (cacheDailyStep tz year) (orEmpty (sc_dailyActivity statsCache)) a0);
          a2 = (if a_totalToolCalls a1 = 0
                then a1\<lparr>a_totalToolCalls :=
                        fold (\<lambda>entry n. n + orZero (d_toolCallCount entry))
                          (orEmpty (sc_dailyActivity statsCache)) (a_totalToolCalls a1)\<rparr>
                else a1);
          a3 = (if a_totalSessions a2 = 0
                then a2\<lparr>a_totalSessions :=
                        fold (\<lambda>entry n. n + orZero (d_sessionCount entry))
                          (orEmpty (sc_dailyActivity statsCache)) (a_totalSessions a2)\<rparr>
                else a2)
      in a3)"

subsection \<open>Per-model token totals (lines 63--88)\<close>

definition cacheModelStep :: "int \<Rightarrow> int \<Rightarrow> DailyModelTokens \<Rightarrow> (string \<times> int) list \<Rightarrow> (string \<times> int) list" where
  "cacheModelStep tz year entry modelTokenTotals =
     (let entryDate = t_date entry in
      if entryDate = [] then modelTokenTotals
      else (case Date_parse entryDate of
              None \<Rightarrow> modelTokenTotals
            | Some t \<Rightarrow>
                if getFullYear tz t \<noteq> year then modelTokenTotals
                else fold (\<lambda>(modelId, tokens) m. map_set m modelId (map_get0 m modelId + tokens))
                       (orEmpty (t_tokensByModel entry)) modelTokenTotals))"

definition mergeModelTokenTotals :: "int \<Rightarrow> int \<Rightarrow> ClaudeStatsCache \<Rightarrow> ClaudeUsageSummary \<Rightarrow> (string \<times> int) list" where
  "mergeModelTokenTotals tz year statsCache usageSummary =
     (let m1 = (if length (u_modelTokenTotals usageSummary) > 0
                then fold (\<lambda>(modelId, tokens) m. map_set m modelId tokens)
                       (u_modelTokenTotals usageSummary) []
                else fold (cacheModelStep tz year) (orEmpty (sc_dailyModelTokens statsCache)) [])
      in if length m1 = 0
         then fold (\<lambda>(modelId, usage) m.
                      (let tokens = orZero (inputTokens usage) + orZero (outputTokens usage)
                       in if tokens > 0 then map_set m modelId tokens else m))
                (orEmpty (sc_modelUsage statsCache)) m1
         else m1)"

subsection \<open>Token scalars and the model list (lines 90--163)\<close>

definition hasUsageSummaryTokens :: "ClaudeUsageSummary \<Rightarrow> bool" where
  "hasUsageSummaryTokens usageSummary =
     (u_totalTokens usageSummary > 0 \<or> u_totalInputTokens usageSummary > 0
      \<or> u_totalOutputTokens usageSummary > 0 \<or> u_totalCacheReadTokens usageSummary > 0
      \<or> u_totalCacheCreationTokens usageSummary > 0)"

record ModelStats =
  m_id :: string
  m_count :: int
  m_percentage :: rat

record TokenAcc =
  t_totalTokens :: int
  t_totalInputTokens :: int
  t_totalOutputTokens :: int
  t_totalCacheReadTokens :: int
  t_totalCacheWriteTokens :: int
  t_totalWebSearchRequests :: int
  t_peakContextWindow :: int
  t_modelStats :: "ModelStats list"

text \<open>
  One round of the loop over the merged per-model totals (lines 108--163); \<open>has\<close> is
  \<open>hasUsageSummaryTokens\<close>.  The display name and the provider of a model are not
  modelled.
\<close>

definition modelStep :: "bool \<Rightarrow> (string \<times> ModelUsage) list \<Rightarrow> string \<times> int \<Rightarrow> TokenAcc \<Rightarrow> TokenAcc" where
  "modelStep has modelUsage e acc =
     (case e of (modelId, tokens) \<Rightarrow>
        if tokens \<le> 0 then acc
        else (let acc1 = (if \<not> has then acc\<lparr>t_totalTokens := t_totalTokens acc + tokens\<rparr> else acc);
                  usage = map_of modelUsage modelId;
                  c = apportion tokens usage;
                  acc2 = (case usage of
                            None \<Rightarrow> acc1
                          | Some u \<Rightarrow>
                              (let acc1a = (if \<not> has
                                            then acc1\<lparr>t_totalCacheReadTokens :=
                                                        t_totalCacheReadTokens acc1 + c_cachedInputTokens c,
                                                      t_totalCacheWriteTokens :=
                                                        t_totalCacheWriteTokens acc1 + c_cacheCreationTokens c\<rparr>
                                            else acc1)
                               in acc1a\<lparr>t_totalWebSearchRequests :=
                                           t_totalWebSearchRequests acc1a + orZero (webSearchRequests u),
                                         t_peakContextWindow :=
                                           max (t_peakContextWindow acc1a) (orZero (contextWindow u))\<rparr>));
                  acc3 = (if \<not> has
                          then acc2\<lparr>t_totalInputTokens := t_totalInputTokens acc2 + c_inputTokens c,
                                    t_totalOutputTokens := t_totalOutputTokens acc2 + c_outputTokens c\<rparr>
                          else acc2)
              in acc3\<lparr>t_modelStats := t_modelStats acc3
                         @ [\<lparr>m_id = modelId, m_count = tokens, m_percentage = 0\<rparr>]\<rparr>))"

definition mergeTokens :: "(string \<times> ModelUsage) list \<Rightarrow> (string \<times> int) list \<Rightarrow> ClaudeUsageSummary \<Rightarrow> TokenAcc" where
  "mergeTokens modelUsage modelTokenTotals usageSummary =
     fold (modelStep (hasUsageSummaryTokens usageSummary) modelUsage) modelTokenTotals
       \<lparr>t_totalTokens = u_totalTokens usageSummary,
        t_totalInputTokens = u_totalInputTokens usageSummary,
        t_totalOutputTokens = u_totalOutputTokens usageSummary,
        t_totalCacheReadTokens = u_totalCacheReadTokens usageSummary,
        t_totalCacheWriteTokens = u_totalCacheCreationTokens usageSummary,
        t_totalWebSearchRequests = 0,
        t_peakContextWindow = 0,
        t_modelStats = []\<rparr>"

subsection \<open>Top models (lines 165--171)\<close>

text \<open>
  \<open>Array.prototype.sort\<close> is stable; with the comparator \<open>b.count - a.count\<close> it sorts by
  descending count.  \<open>percentageOf\<close> is the expression of line 170.
\<close>

definition percentageOf :: "int \<Rightarrow> int \<Rightarrow> rat" where
  "percentageOf totalTokens count =
     (if totalTokens > 0 then fmul (fdiv (of_int count) (of_int totalTokens)) 100 else 0)"

definition sortByCountDesc :: "ModelStats list \<Rightarrow> ModelStats list" where
  "sortByCountDesc modelStats = sort_key (\<lambda>m. - m_count m) modelStats"

definition withPercentage :: "int \<Rightarrow> ModelStats \<Rightarrow> ModelStats" where
  "withPercentage totalTokens model =
     model\<lparr>m_percentage := percentageOf totalTokens (m_count model)\<rparr>"

definition topModelsOf :: "int \<Rightarrow> ModelStats list \<Rightarrow> ModelStats list" where
  "topModelsOf totalTokens modelStats =
     map (withPercentage totalTokens) (take 3 (sortByCountDesc modelStats))"

subsection \<open>Streaks (lines 243--300)\<close>

record StreakState =
  s_maxStreak :: nat
  s_tempStreak :: nat
  s_tempStreakStart :: nat
  s_maxStreakStart :: nat
  s_maxStreakEnd :: nat

text \<open>
  \<open>Math.round((currDate.getTime() - prevDate.getTime()) / (1000 * 60 * 60 * 24))\<close>; with
  an invalid date the result is \<open>NaN\<close> (\<open>None\<close>), which is not 1.
\<close>

definition diffDays :: "string \<Rightarrow> string \<Rightarrow> int option" where
  "diffDays prevKey currKey =
     (case Date_parse prevKey of
        None \<Rightarrow> None
      | Some prevDate \<Rightarrow>
          (case Date_parse currKey of
             None \<Rightarrow> None
           | Some currDate \<Rightarrow> Some (Math_round (of_int (currDate - prevDate) / of_int msPerDay))))"

text \<open>The body of the loop of lines 262--281, at index \<open>i\<close>.\<close>

definition streakStep :: "string list \<Rightarrow> nat \<Rightarrow> StreakState \<Rightarrow> StreakState" where
  "streakStep activeDates i st =
     (if diffDays (activeDates ! (i - 1)) (activeDates ! i) = Some 1
      then (let tempStreak = s_tempStreak st + 1 in
            if tempStreak > s_maxStreak st
            then st\<lparr>s_tempStreak := tempStreak, s_maxStreak := tempStreak,
                    s_maxStreakStart := s_tempStreakStart st, s_maxStreakEnd := i\<rparr>
            else st\<lparr>s_tempStreak := tempStreak\<rparr>)
      else st\<lparr>s_tempStreak := 1, s_tempStreakStart := i\<rparr>)"

definition streakLoop :: "string list \<Rightarrow> StreakState" where
  "streakLoop activeDates =
     fold (streakStep activeDates) [1 ..< length activeDates]
       \<lparr>s_maxStreak = 1, s_tempStreak = 1, s_tempStreakStart = 0,
        s_maxStreakStart = 0, s_maxStreakEnd = 0\<rparr>"

record Streaks =
  k_maxStreak :: nat
  k_maxStreakDays :: "string list"

text \<open>
  \<open>calculateStreaks\<close> without the current streak, which reads the wall clock.  The
  default \<open>sort\<close> orders strings by their code units.
\<close>

definition calculateStreaks :: "(string \<times> int) list \<Rightarrow> int \<Rightarrow> Streaks" where
  "calculateStreaks dailyActivity year =
     (let activeDates = sort (filter (\<lambda>date. startsWith date (String_of year))
                                (map fst dailyActivity))
      in if length activeDates = 0 then \<lparr>k_maxStreak = 0, k_maxStreakDays = []\<rparr>
         else (let st = streakLoop activeDates
               in \<lparr>k_maxStreak = s_maxStreak st,
                   k_maxStreakDays =
                     fold (\<lambda>i days. set_add days (activeDates ! i))
                       [s_maxStreakStart st ..< s_maxStreakEnd st + 1] []\<rparr>))"

text \<open>
  The max-streak rule in the spec's words, on the sorted active dates: walk consecutive
  pairs; a gap of exactly one calendar day extends the current run, any other gap resets
  it to the single current date; the longest run seen is kept, a later run replacing it
  only when strictly longer.
\<close>

fun walkRuns :: "string \<Rightarrow> string list \<Rightarrow> string list \<Rightarrow> string list \<Rightarrow> string list" where
  "walkRuns prevKey [] run longest = longest"
| "walkRuns prevKey (d # ds) run longest =
     (if diffDays prevKey d = Some 1
      then (let run' = run @ [d]
            in walkRuns d ds run' (if length run' > length longest then run' else longest))
      else walkRuns d ds [d] longest)"

definition longestRun :: "string list \<Rightarrow> string list" where
  "longestRun activeDates =
     (case activeDates of [] \<Rightarrow> [] | d # ds \<Rightarrow> walkRuns d ds [d] [d])"

definition activeDatesOf :: "(string \<times> int) list \<Rightarrow> int \<Rightarrow> string list" where
  "activeDatesOf daily yr =
     sort (filter (\<lambda>date. startsWith date (String_of yr)) (map fst daily))"

text \<open>
  The part of a list from index \<open>a\<close> up to index \<open>b\<close> (exclusive), and what the loop
  of \<open>calculateStreaks\<close> maintains before round \<open>i\<close>.
\<close>

definition slice :: "'a list \<Rightarrow> nat \<Rightarrow> nat \<Rightarrow> 'a list" where
  "slice xs a b = take (b - a) (drop a xs)"

definition streakInv :: "nat \<Rightarrow> StreakState \<Rightarrow> bool" where
  "streakInv i st =
     (s_tempStreakStart st + s_tempStreak st = i
      \<and> s_maxStreakStart st + s_maxStreak st = s_maxStreakEnd st + 1
      \<and> s_maxStreakEnd st < i)"

subsection \<open>Weekday distribution (lines 351--369)\<close>

record WeekdayActivity =
  w_counts :: "int list"
  w_mostActiveDay :: nat
  w_maxCount :: int

definition buildWeekdayActivity :: "int list \<Rightarrow> WeekdayActivity" where
  "buildWeekdayActivity counts =
     (let r = fold (\<lambda>i (mostActiveDay, maxCount).
                      if counts ! i > maxCount then (i, counts ! i) else (mostActiveDay, maxCount))
                [0 ..< 7] (0, 0)
      in \<lparr>w_counts = counts, w_mostActiveDay = fst r, w_maxCount = snd r\<rparr>)"

subsection \<open>The snapshot (lines 14--225, after the four inputs are awaited)\<close>

text \<open>
  \<open>MonthlyActivity\<close> is the type that types.ts (lines 137--142) declares for the
  snapshot's \<open>monthlyActivity\<close> field, without the month's name.
\<close>

record MonthlyActivity =
  mo_counts :: "int list"
  mo_mostActiveMonth :: nat
  mo_maxCount :: int

text \<open>
  The fields of \<open>ClaudeCodeStats\<close> that depend on the wall clock, on the project history or
  on the model directory (first session date, days since, current streak, project count,
  providers, display names, most active day) are left out.  The object that
  \<open>calculateStats\<close> returns (lines 198--225) has no \<open>monthlyActivity\<close> property, so that
  reading the field gives \<open>undefined\<close>, which is \<open>None\<close> here.
\<close>

record ClaudeCodeStats =
  year :: int
  totalSessions :: int
  totalMessages :: int
  totalInputTokens :: int
  totalOutputTokens :: int
  totalTokens :: int
  totalCacheReadTokens :: int
  totalCacheWriteTokens :: int
  cacheHitRate :: rat
  totalWebSearchRequests :: int
  totalToolCalls :: int
  peakContextWindow :: int
  totalCost :: rat
  hasUsageCost :: bool
  topModels :: "ModelStats list"
  maxStreak :: nat
  maxStreakDays :: "string list"
  dailyActivity :: "(string \<times> int) list"
  weekdayActivity :: WeekdayActivity
  monthlyActivity :: "MonthlyActivity option"

definition calculateStats_body :: "int \<Rightarrow> int \<Rightarrow> ClaudeStatsCache \<Rightarrow> ClaudeUsageSummary \<Rightarrow> ClaudeCodeStats" where
  "calculateStats_body tz yr statsCache usageSummary =
     (let daily = mergeDaily tz yr statsCache usageSummary;
          modelTokenTotals = mergeModelTokenTotals tz yr statsCache usageSummary;
          modelUsage = orEmpty (sc_modelUsage statsCache);
          acc = mergeTokens modelUsage modelTokenTotals usageSummary;
          totalCost0 = u_totalCostUSD usageSummary;
          streaks = calculateStreaks (a_dailyActivity daily) yr;
          cacheDenominator = t_totalCacheReadTokens acc + t_totalCacheWriteTokens acc
      in \<lparr>year = yr,
          totalSessions = a_totalSessions daily,
          totalMessages = a_totalMessages daily,
          totalInputTokens = t_totalInputTokens acc,
          totalOutputTokens = t_totalOutputTokens acc,
          totalTokens = t_totalTokens acc,
          totalCacheReadTokens = t_totalCacheReadTokens acc,
          totalCacheWriteTokens = t_totalCacheWriteTokens acc,
          cacheHitRate = (if cacheDenominator > 0
                          then fmul (fdiv (of_int (t_totalCacheReadTokens acc))
                                       (of_int cacheDenominator)) 100
                          else 0),
          totalWebSearchRequests = t_totalWebSearchRequests acc,
          totalToolCalls = a_totalToolCalls daily,
          peakContextWindow = t_peakContextWindow acc,
          totalCost = totalCost0,
          hasUsageCost = (totalCost0 > 0),
          topModels = topModelsOf (t_totalTokens acc) (t_modelStats acc),
          maxStreak = k_maxStreak streaks,
          maxStreakDays = k_maxStreakDays streaks,
          dailyActivity = a_dailyActivity daily,
          weekdayActivity = buildWeekdayActivity (a_weekdayCounts daily),
          monthlyActivity = None\<rparr>)"

subsection \<open>Vocabulary for the properties of the merger\<close>

text \<open>
  The models of a per-model map that the model loop does not skip, the components the loop
  derives for one of them, the live summary's five token scalars being all zero or all
  non-negative, the model list before sorting and slicing, and the sum of the percentages
  over a model list.
\<close>

definition positiveModels :: "(string \<times> int) list \<Rightarrow> (string \<times> int) list" where
  "positiveModels modelTokenTotals = filter (\<lambda>e. snd e > 0) modelTokenTotals"

definition apportioned :: "(string \<times> ModelUsage) list \<Rightarrow> string \<times> int \<Rightarrow> Components" where
  "apportioned modelUsage e = apportion (snd e) (map_of modelUsage (fst e))"

definition liveScalarsZero :: "ClaudeUsageSummary \<Rightarrow> bool" where
  "liveScalarsZero usageSummary =
     (u_totalTokens usageSummary = 0 \<and> u_totalInputTokens usageSummary = 0
      \<and> u_totalOutputTokens usageSummary = 0 \<and> u_totalCacheReadTokens usageSummary = 0
      \<and> u_totalCacheCreationTokens usageSummary = 0)"

definition liveScalarsNonneg :: "ClaudeUsageSummary \<Rightarrow> bool" where
  "liveScalarsNonneg usageSummary =
     (u_totalTokens usageSummary \<ge> 0 \<and> u_totalInputTokens usageSummary \<ge> 0
      \<and> u_totalOutputTokens usageSummary \<ge> 0 \<and> u_totalCacheReadTokens usageSummary \<ge> 0
      \<and> u_totalCacheCreationTokens usageSummary \<ge> 0)"

definition allModelStats :: "int \<Rightarrow> int \<Rightarrow> ClaudeStatsCache \<Rightarrow> ClaudeUsageSummary \<Rightarrow> ModelStats list" where
  "allModelStats tz yr statsCache usageSummary =
     t_modelStats (mergeTokens (orEmpty (sc_modelUsage statsCache))
       (mergeModelTokenTotals tz yr statsCache usageSummary) usageSummary)"

definition percentageSum :: "int \<Rightarrow> ModelStats list \<Rightarrow> rat" where
  "percentageSum totalTokens0 modelStats =
     sum_list (map (\<lambda>m. percentageOf totalTokens0 (m_count m)) modelStats)"

section \<open>The source locator and the cache reader (collector.ts 354--411, stats.ts 6--12)\<close>

text \<open>
  The environment of a run: the home directory, the variable \<open>CLAUDE_CONFIG_DIR\<close> and the
  readable files with their contents.  \<open>join\<close> puts a separator between its parts.  A
  raised exception is a value of type \<open>error\<close>: the two \<open>Error\<close>s the code throws, a failed
  read and the \<open>SyntaxError\<close> of \<open>JSON.parse\<close>.  A parsed JSON value is \<open>null\<close>, a
  primitive, or an object, read as a stats cache; \<open>isValidStatsCache\<close> accepts the objects.
\<close>

datatype error = Error string | ReadError | SyntaxError

record Env =
  env_home :: string
  env_CLAUDE_CONFIG_DIR :: "string option"
  env_files :: "string \<Rightarrow> string option"

definition join :: "string \<Rightarrow> string \<Rightarrow> string" where
  "join dir name = dir @ ''/'' @ name"

definition CLAUDE_DATA_PATH :: "Env \<Rightarrow> string" where
  "CLAUDE_DATA_PATH env = join (env_home env) ''.claude''"

definition CLAUDE_CONFIG_PATH :: "Env \<Rightarrow> string" where
  "CLAUDE_CONFIG_PATH env = join (join (env_home env) ''.config'') ''claude''"

definition existsSync :: "Env \<Rightarrow> string \<Rightarrow> bool" where
  "existsSync env path = (env_files env path \<noteq> None)"

definition resolveClaudeDataPath :: "Env \<Rightarrow> string option" where
  "resolveClaudeDataPath env =
     (let envPath = map_option trim (env_CLAUDE_CONFIG_DIR env);
          candidates = [CLAUDE_CONFIG_PATH env, CLAUDE_DATA_PATH env]
      in case envPath of
           None \<Rightarrow> List.find (\<lambda>path. existsSync env (join path ''stats-cache.json'')) candidates
         | Some p \<Rightarrow>
             if p \<noteq> [] \<and> existsSync env (join p ''stats-cache.json'') then Some p
             else List.find (\<lambda>path. existsSync env (join path ''stats-cache.json'')) candidates)"

definition checkClaudeDataExists :: "Env \<Rightarrow> bool" where
  "checkClaudeDataExists env = (resolveClaudeDataPath env \<noteq> None)"

datatype JsonValue = JNull | JPrimitive | JObject ClaudeStatsCache

definition loadClaudeStatsCache :: "(string \<Rightarrow> JsonValue option) \<Rightarrow> Env \<Rightarrow> error + ClaudeStatsCache" where
  "loadClaudeStatsCache JSON_parse env =
     (case resolveClaudeDataPath env of
        None \<Rightarrow> Inl (Error ''Claude data not found'')
      | Some dataPath \<Rightarrow>
          (case env_files env (join dataPath ''stats-cache.json'') of
             None \<Rightarrow> Inl ReadError
           | Some raw \<Rightarrow>
               (case JSON_parse raw of
                  None \<Rightarrow> Inl SyntaxError
                | Some parsed \<Rightarrow>
                    (case parsed of
                       JObject c \<Rightarrow> Inr c
                     | _ \<Rightarrow> Inl (Error ''Invalid stats-cache.json format'')))))"

definition calculateStats ::
  "int \<Rightarrow> int \<Rightarrow> (string \<Rightarrow> JsonValue option) \<Rightarrow> (string \<Rightarrow> 'p option)
     \<Rightarrow> (int \<Rightarrow> int \<Rightarrow> int \<Rightarrow> int \<Rightarrow> 'p \<Rightarrow> rat) \<Rightarrow> Env \<Rightarrow> Entry option list list list
     \<Rightarrow> error + ClaudeCodeStats" where
  "calculateStats tz yr JSON_parse getModelPricing calculateCostUSD env roots =
     (case loadClaudeStatsCache JSON_parse env of
        Inl e \<Rightarrow> Inl e
      | Inr statsCache \<Rightarrow>
          Inr (calculateStats_body tz yr statsCache
                 (collectClaudeUsageSummary tz yr getModelPricing calculateCostUSD roots)))"

text \<open>No candidate directory holds the marker file \<open>stats-cache.json\<close>.\<close>

definition noMarker :: "Env \<Rightarrow> bool" where
  "noMarker env =
     ((case env_CLAUDE_CONFIG_DIR env of
         None \<Rightarrow> True
       | Some p \<Rightarrow> \<not> existsSync env (join (trim p) ''stats-cache.json''))
      \<and> \<not> existsSync env (join (CLAUDE_CONFIG_PATH env) ''stats-cache.json'')
      \<and> \<not> existsSync env (join (CLAUDE_DATA_PATH env) ''stats-cache.json''))"

section \<open>Example inputs\<close>

text \<open>
  A pricing table that knows no model, and one that charges one unit per thousand tokens
  of any kind.
\<close>

definition noPricing :: "string \<Rightarrow> rat option" where
  "noPricing model = None"

definition flatPricing :: "string \<Rightarrow> rat option" where
  "flatPricing model = Some (1 / 1000)"

definition flatCost :: "int \<Rightarrow> int \<Rightarrow> int \<Rightarrow> int \<Rightarrow> rat \<Rightarrow> rat" where
  "flatCost input output cacheCreate cacheRead price =
     of_int (input + output + cacheCreate + cacheRead) * price"

text \<open>
  Log records: \<open>1750000000000\<close> is 2025-06-15T15:06:40Z and \<open>1720000000000\<close> is
  2024-07-03T09:46:40Z.
\<close>

definition entryA :: Entry where
  "entryA = \<lparr>e_timestamp = Some 1750000000000, e_sessionId = Some ''s1'',
     e_requestId = Some ''req1'', e_messageId = Some ''msg1'', e_model = Some ''claude-a'',
     e_usage = Some \<lparr>input_tokens = Some 10, output_tokens = None,
       cache_creation_input_tokens = None, cache_read_input_tokens = None\<rparr>,
     e_costUSD = None\<rparr>"

definition entryNoModel :: Entry where
  "entryNoModel = \<lparr>e_timestamp = Some 1750000000000, e_sessionId = Some ''s1'',
     e_requestId = Some ''req2'', e_messageId = Some ''msg2'', e_model = None,
     e_usage = Some \<lparr>input_tokens = Some 10, output_tokens = None,
       cache_creation_input_tokens = None, cache_read_input_tokens = None\<rparr>,
     e_costUSD = None\<rparr>"

definition entryZero :: Entry where
  "entryZero = \<lparr>e_timestamp = Some 1750000000000, e_sessionId = None,
     e_requestId = Some ''req3'', e_messageId = Some ''msg3'', e_model = Some ''claude-z'',
     e_usage = Some \<lparr>input_tokens = Some 0, output_tokens = None,
       cache_creation_input_tokens = None, cache_read_input_tokens = None\<rparr>,
     e_costUSD = None\<rparr>"

definition entryZeroNoModel :: Entry where
  "entryZeroNoModel = entryZero\<lparr>e_model := None\<rparr>"

text \<open>
  Records of two and of one token for two models, and a record whose output count is
  negative.
\<close>

definition entryTwo :: Entry where
  "entryTwo = \<lparr>e_timestamp = Some 1750000000000, e_sessionId = Some ''s1'',
     e_requestId = Some ''req4'', e_messageId = Some ''msg4'', e_model = Some ''claude-a'',
     e_usage = Some \<lparr>input_tokens = Some 2, output_tokens = None,
       cache_creation_input_tokens = None, cache_read_input_tokens = None\<rparr>,
     e_costUSD = None\<rparr>"

definition entryOne :: Entry where
  "entryOne = \<lparr>e_timestamp = Some 1750000000000, e_sessionId = Some ''s1'',
     e_requestId = Some ''req5'', e_messageId = Some ''msg5'', e_model = Some ''claude-b'',
     e_usage = Some \<lparr>input_tokens = Some 1, output_tokens = None,
       cache_creation_input_tokens = None, cache_read_input_tokens = None\<rparr>,
     e_costUSD = None\<rparr>"

definition entryNegative :: Entry where
  "entryNegative = \<lparr>e_timestamp = Some 1750000000000, e_sessionId = Some ''s1'',
     e_requestId = Some ''req6'', e_messageId = Some ''msg6'', e_model = Some ''claude-b'',
     e_usage = Some \<lparr>input_tokens = None, output_tokens = Some (- 10),
       cache_creation_input_tokens = None, cache_read_input_tokens = None\<rparr>,
     e_costUSD = None\<rparr>"

definition entryLastYear :: Entry where
  "entryLastYear = \<lparr>e_timestamp = Some 1720000000000, e_sessionId = Some ''s0'',
     e_requestId = Some ''req0'', e_messageId = Some ''msg0'', e_model = Some ''claude-a'',
     e_usage = Some \<lparr>input_tokens = Some 7, output_tokens = Some 3,
       cache_creation_input_tokens = None, cache_read_input_tokens = None\<rparr>,
     e_costUSD = Some 5\<rparr>"

text \<open>A cache with one day of 2025 and a model usage record that carries a cost.\<close>

definition cacheWithCost :: ClaudeStatsCache where
  "cacheWithCost = \<lparr>sc_dailyActivity = Some [\<lparr>d_date = ''2025-03-01'', d_messageCount = Some 4,
        d_sessionCount = Some 1, d_toolCallCount = Some 2\<rparr>],
     sc_dailyModelTokens = None,
     sc_modelUsage = Some [(''claude-a'', \<lparr>inputTokens = Some 100, outputTokens = Some 50,
        cacheReadInputTokens = None, cacheCreationInputTokens = None,
        webSearchRequests = None, costUSD = Some 12, contextWindow = None\<rparr>)],
     sc_firstSessionDate = None\<rparr>"

text \<open>A cache with per-day model totals for two models, one of which has a usage record.\<close>

definition cacheModels :: ClaudeStatsCache where
  "cacheModels = \<lparr>sc_dailyActivity = Some [\<lparr>d_date = ''2025-03-01'', d_messageCount = Some 4,
        d_sessionCount = Some 1, d_toolCallCount = Some 2\<rparr>],
     sc_dailyModelTokens = Some [\<lparr>t_date = ''2025-03-01'',
        t_tokensByModel = Some [(''claude-a'', 30), (''claude-b'', 10)]\<rparr>],
     sc_modelUsage = Some [(''claude-a'', \<lparr>inputTokens = Some 100, outputTokens = Some 50,
        cacheReadInputTokens = None, cacheCreationInputTokens = None,
        webSearchRequests = None, costUSD = Some 12, contextWindow = None\<rparr>)],
     sc_firstSessionDate = None\<rparr>"

definition emptyCache :: ClaudeStatsCache where
  "emptyCache = \<lparr>sc_dailyActivity = None, sc_dailyModelTokens = None, sc_modelUsage = None,
     sc_firstSessionDate = None\<rparr>"

definition emptyUsage :: ClaudeUsageSummary where
  "emptyUsage = \<lparr>u_totalInputTokens = 0, u_totalOutputTokens = 0,
     u_totalCacheCreationTokens = 0, u_totalCacheReadTokens = 0, u_totalTokens = 0,
     u_totalCostUSD = 0, u_modelTokenTotals = [], u_firstTimestamp = None,
     u_dailyActivity = [], u_totalMessages = 0, u_totalSessions = 0\<rparr>"

text \<open>
  Daily activity with runs of three and four days, and with two runs of three days, in
  the insertion order of a map.
\<close>

definition exampleDays :: "(string \<times> int) list" where
  "exampleDays = [(''2025-01-12'', 1), (''2025-01-01'', 2), (''2025-01-02'', 1),
     (''2025-01-03'', 5), (''2025-01-10'', 1), (''2025-01-11'', 1), (''2025-01-13'', 1)]"

definition tieDays :: "(string \<times> int) list" where
  "tieDays = [(''2025-02-27'', 1), (''2025-02-28'', 2), (''2025-03-01'', 1),
     (''2025-03-10'', 5), (''2025-03-11'', 1), (''2025-03-12'', 1), (''2024-12-31'', 1)]"

text \<open>
  An environment without any file, a JSON parser that is never reached, and a cache whose
  only day is New Year's Day of 2026.
\<close>

definition bareEnv :: Env where
  "bareEnv = \<lparr>env_home = ''/home/u'', env_CLAUDE_CONFIG_DIR = None, env_files = Map.empty\<rparr>"

definition parseNothing :: "string \<Rightarrow> JsonValue option" where
  "parseNothing raw = None"

definition cacheNewYear :: ClaudeStatsCache where
  "cacheNewYear = \<lparr>sc_dailyActivity = Some [\<lparr>d_date = ''2026-01-01'', d_messageCount = Some 3,
        d_sessionCount = Some 1, d_toolCallCount = None\<rparr>],
     sc_dailyModelTokens = None, sc_modelUsage = None, sc_firstSessionDate = None\<rparr>"

section \<open>Facts about doubles\<close>

lemma roundEven_error: "\<bar>of_int (roundEven y) - y\<bar> \<le> 1 / 2"
  unfolding roundEven_def Let_def by (auto simp: abs_if) linarith+

lemma exponentOf_lower:
  assumes "a > 0"
  shows "2 powi exponentOf a \<le> a"
proof -
  obtain p q where pq: "quotient_of a = (p, q)"
    by (cases "quotient_of a")
  then have q: "q > 0" and a: "a = of_int p / of_int q"
    by (simp_all add: quotient_of_denom_pos quotient_of_div)
  have p: "p > 0"
    using assms q a by (simp add: zero_less_divide_iff)
  have bp: "bitlen p \<ge> 1" and bq: "bitlen q \<ge> 1"
    using p q by (simp_all add: bitlen_alt_def)
  have lp: "(2::rat) ^ nat (bitlen p - 1) \<le> of_int p"
  proof -
    have "(2::int) ^ nat (bitlen p - 1) \<le> p" using bitlen_bounds [OF p] by simp
    then have "rat_of_int (2 ^ nat (bitlen p - 1)) \<le> of_int p" by (simp only: of_int_le_iff)
    then show ?thesis by simp
  qed
  have uq: "of_int q \<le> (2::rat) ^ nat (bitlen q)"
  proof -
    have "q \<le> (2::int) ^ nat (bitlen q)" using bitlen_bounds [OF q] by simp
    then have "rat_of_int q \<le> of_int (2 ^ nat (bitlen q))" by (simp only: of_int_le_iff)
    then show ?thesis by simp
  qed
  have low: "(2::rat) powi (bitlen p - bitlen q - 1) \<le> a"
  proof -
    have d: "bitlen p - bitlen q - 1 = (bitlen p - 1) - bitlen q" by simp
    have "(2::rat) powi ((bitlen p - 1) - bitlen q) = 2 powi (bitlen p - 1) / 2 powi bitlen q"
      by (rule power_int_diff) simp
    then have "(2::rat) powi (bitlen p - bitlen q - 1) = 2 powi (bitlen p - 1) / 2 powi bitlen q"
      by (simp only: d)
    also have "\<dots> = 2 ^ nat (bitlen p - 1) / 2 ^ nat (bitlen q)"
      using bp bq by (simp add: power_int_def)
    also have "\<dots> \<le> of_int p / of_int q"
      using lp uq q p by (intro frac_le) simp_all
    finally show ?thesis by (simp add: a)
  qed
  show ?thesis
    using low by (simp add: exponentOf_def pq Let_def)
qed

lemma fl_error: "\<bar>fl x - x\<bar> \<le> \<bar>x\<bar> / 2 ^ 53"
proof (cases "x = 0")
  case True
  then show ?thesis by (simp add: fl_def)
next
  case False
  define a where "a = \<bar>x\<bar>"
  define ulp where "ulp = (2::rat) powi (exponentOf a - 52)"
  define m where "m = roundEven (a / ulp)"
  have apos: "a > 0" using False by (simp add: a_def)
  have upos: "ulp > 0" by (simp add: ulp_def)
  have e: "2 powi exponentOf a \<le> a" using apos by (rule exponentOf_lower)
  have u: "ulp = 2 powi exponentOf a / 2 ^ 52"
    by (simp add: ulp_def power_int_diff)
  have r: "\<bar>of_int m - a / ulp\<bar> \<le> 1 / 2"
    unfolding m_def by (rule roundEven_error)
  have "of_int m * ulp - a = (of_int m - a / ulp) * ulp"
    using upos by (simp add: left_diff_distrib)
  then have "\<bar>of_int m * ulp - a\<bar> = \<bar>of_int m - a / ulp\<bar> * ulp"
    using upos by (simp add: abs_mult)
  also have "\<dots> \<le> 1 / 2 * ulp"
    using r upos by (intro mult_right_mono) simp_all
  also have "\<dots> = 2 powi exponentOf a / 2 ^ 53"
    by (simp add: u)
  also have "\<dots> \<le> a / 2 ^ 53"
    using e by (simp add: divide_right_mono)
  finally have main: "\<bar>of_int m * ulp - a\<bar> \<le> a / 2 ^ 53" .
  have "fl x = sgn x * (of_int m * ulp)"
    using False by (simp add: fl_def Let_def a_def ulp_def m_def)
  moreover have "x = sgn x * a"
    by (simp add: a_def abs_if sgn_if)
  ultimately have "\<bar>fl x - x\<bar> = \<bar>sgn x * (of_int m * ulp - a)\<bar>"
    by (metis right_diff_distrib)
  also have "\<dots> = \<bar>of_int m * ulp - a\<bar>"
    using False by (simp add: abs_mult abs_sgn_eq)
  finally show ?thesis
    using main by (simp add: a_def)
qed

lemma fl_bound: "\<bar>fl x\<bar> \<le> \<bar>x\<bar> * (1 + 1 / 2 ^ 53)"
proof -
  have "\<bar>fl x\<bar> \<le> \<bar>fl x - x\<bar> + \<bar>x\<bar>" by simp
  also have "\<dots> \<le> \<bar>x\<bar> / 2 ^ 53 + \<bar>x\<bar>" using fl_error [of x] by simp
  finally show ?thesis by (simp add: algebra_simps)
qed

lemma Math_round_nearest: "\<bar>of_int (Math_round x) - x\<bar> \<le> 1 / 2"
  unfolding Math_round_def by (simp add: abs_if) linarith

section \<open>Apportionment exactness\<close>

lemma componentSum_apportion: "componentSum (apportion tokens usage) = tokens"
  by (simp add: apportion_def componentSum_def Let_def split: option.split)

text \<open>
  Claim C1.  When a model's aggregate token count is apportioned with a usage record whose
  four fields have a positive sum, the four components sum exactly to the aggregate.  The
  output, cache-read and cache-write components are the usage fields scaled by the ratio
  \<open>tokens / usageTotal\<close> (a product of doubles) and rounded to the nearest integer, so
  that each is within one half of its scaled field; the input component is its rounded
  scaled field plus the signed drift \<open>tokens - scaledTotal\<close>.
\<close>

theorem apportion_exact:
  assumes "usageTotalOf u > 0"
  shows "componentSum (apportion tokens (Some u)) = tokens
    \<and> c_outputTokens (apportion tokens (Some u))
        = Math_round (scaled (orZero (outputTokens u)) tokens (usageTotalOf u))
    \<and> \<bar>of_int (c_outputTokens (apportion tokens (Some u)))
         - scaled (orZero (outputTokens u)) tokens (usageTotalOf u)\<bar> \<le> 1 / 2
    \<and> c_cachedInputTokens (apportion tokens (Some u))
        = Math_round (scaled (orZero (cacheReadInputTokens u)) tokens (usageTotalOf u))
    \<and> \<bar>of_int (c_cachedInputTokens (apportion tokens (Some u)))
         - scaled (orZero (cacheReadInputTokens u)) tokens (usageTotalOf u)\<bar> \<le> 1 / 2
    \<and> c_cacheCreationTokens (apportion tokens (Some u))
        = Math_round (scaled (orZero (cacheCreationInputTokens u)) tokens (usageTotalOf u))
    \<and> \<bar>of_int (c_cacheCreationTokens (apportion tokens (Some u)))
         - scaled (orZero (cacheCreationInputTokens u)) tokens (usageTotalOf u)\<bar> \<le> 1 / 2
    \<and> c_inputTokens (apportion tokens (Some u))
        = Math_round (scaled (orZero (inputTokens u)) tokens (usageTotalOf u))
          + (tokens
              - (Math_round (scaled (orZero (inputTokens u)) tokens (usageTotalOf u))
                 + Math_round (scaled (orZero (outputTokens u)) tokens (usageTotalOf u))
                 + Math_round (scaled (orZero (cacheReadInputTokens u)) tokens (usageTotalOf u))
                 + Math_round (scaled (orZero (cacheCreationInputTokens u)) tokens (usageTotalOf u))))
    \<and> \<bar>of_int (Math_round (scaled (orZero (inputTokens u)) tokens (usageTotalOf u)))
         - scaled (orZero (inputTokens u)) tokens (usageTotalOf u)\<bar> \<le> 1 / 2"
proof -
  have o: "c_outputTokens (apportion tokens (Some u))
        = Math_round (scaled (orZero (outputTokens u)) tokens (usageTotalOf u))"
    using assms by (simp add: apportion_def usageTotalOf_def scaled_def Let_def)
  have r: "c_cachedInputTokens (apportion tokens (Some u))
        = Math_round (scaled (orZero (cacheReadInputTokens u)) tokens (usageTotalOf u))"
    using assms by (simp add: apportion_def usageTotalOf_def scaled_def Let_def)
  have w: "c_cacheCreationTokens (apportion tokens (Some u))
        = Math_round (scaled (orZero (cacheCreationInputTokens u)) tokens (usageTotalOf u))"
    using assms by (simp add: apportion_def usageTotalOf_def scaled_def Let_def)
  have i: "c_inputTokens (apportion tokens (Some u))
        = Math_round (scaled (orZero (inputTokens u)) tokens (usageTotalOf u))
          + (tokens
              - (Math_round (scaled (orZero (inputTokens u)) tokens (usageTotalOf u))
                 + Math_round (scaled (orZero (outputTokens u)) tokens (usageTotalOf u))
                 + Math_round (scaled (orZero (cacheReadInputTokens u)) tokens (usageTotalOf u))
                 + Math_round (scaled (orZero (cacheCreationInputTokens u)) tokens (usageTotalOf u))))"
    using assms by (simp add: apportion_def usageTotalOf_def scaled_def Let_def)
  show ?thesis
    by (simp only: o r w i Math_round_nearest componentSum_apportion simp_thms)
qed

text \<open>
  With 15 tokens and a usage record of 11 input and 11 output tokens the double
  \<open>11 * (15 / 22)\<close> is just below \<open>7.5\<close>, so the output component is 7 and the input
  component takes the drift; with 5 tokens over three fields of 1 the scaled fields
  \<open>1.6666666666666667\<close> round up to 2; with 1 token over the first record both scaled
  fields are one half, which rounds up to 1.
\<close>

theorem apportion_exact_witness:
  "usageTotalOf \<lparr>inputTokens = Some 11, outputTokens = Some 11, cacheReadInputTokens = None,
       cacheCreationInputTokens = None, webSearchRequests = None, costUSD = None,
       contextWindow = None\<rparr> > 0
   \<and> scaled 11 15 22 < 15 / 2
   \<and> apportion 15 (Some \<lparr>inputTokens = Some 11, outputTokens = Some 11,
       cacheReadInputTokens = None, cacheCreationInputTokens = None,
       webSearchRequests = None, costUSD = None, contextWindow = None\<rparr>)
     = \<lparr>c_inputTokens = 8, c_outputTokens = 7, c_cachedInputTokens = 0,
        c_cacheCreationTokens = 0\<rparr>
   \<and> componentSum (apportion 15 (Some \<lparr>inputTokens = Some 11, outputTokens = Some 11,
       cacheReadInputTokens = None, cacheCreationInputTokens = None,
       webSearchRequests = None, costUSD = None, contextWindow = None\<rparr>)) = 15
   \<and> \<bar>of_int (c_outputTokens (apportion 15 (Some \<lparr>inputTokens = Some 11,
       outputTokens = Some 11, cacheReadInputTokens = None, cacheCreationInputTokens = None,
       webSearchRequests = None, costUSD = None, contextWindow = None\<rparr>)))
       - scaled 11 15 22\<bar> \<le> 1 / 2
   \<and> apportion 5 (Some \<lparr>inputTokens = Some 1, outputTokens = Some 1,
       cacheReadInputTokens = Some 1, cacheCreationInputTokens = None,
       webSearchRequests = None, costUSD = None, contextWindow = None\<rparr>)
     = \<lparr>c_inputTokens = 1, c_outputTokens = 2, c_cachedInputTokens = 2,
        c_cacheCreationTokens = 0\<rparr>
   \<and> apportion 1 (Some \<lparr>inputTokens = Some 11, outputTokens = Some 11,
       cacheReadInputTokens = None, cacheCreationInputTokens = None,
       webSearchRequests = None, costUSD = None, contextWindow = None\<rparr>)
     = \<lparr>c_inputTokens = 0, c_outputTokens = 1, c_cachedInputTokens = 0,
        c_cacheCreationTokens = 0\<rparr>"
proof -
  let ?u = "\<lparr>inputTokens = Some 11, outputTokens = Some 11, cacheReadInputTokens = None,
       cacheCreationInputTokens = None, webSearchRequests = None, costUSD = None,
       contextWindow = None\<rparr>"
  let ?v = "\<lparr>inputTokens = Some 1, outputTokens = Some 1, cacheReadInputTokens = Some 1,
       cacheCreationInputTokens = None, webSearchRequests = None, costUSD = None,
       contextWindow = None\<rparr>"
  have h: "usageTotalOf ?u > 0"
    by (simp add: usageTotalOf_def orZero_def)
  have u: "usageTotalOf ?u = 22" "orZero (outputTokens ?u) = 11"
    by (simp_all add: usageTotalOf_def orZero_def)
  have s: "scaled 11 15 22 < 15 / 2"
    by code_simp
  have a: "apportion 15 (Some ?u)
     = \<lparr>c_inputTokens = 8, c_outputTokens = 7, c_cachedInputTokens = 0,
        c_cacheCreationTokens = 0\<rparr>"
    by code_simp
  have b: "apportion 5 (Some ?v)
     = \<lparr>c_inputTokens = 1, c_outputTokens = 2, c_cachedInputTokens = 2,
        c_cacheCreationTokens = 0\<rparr>"
    by code_simp
  have c: "componentSum (apportion 15 (Some ?u)) = 15"
    using apportion_exact [OF h, of 15] by blast
  have d: "\<bar>of_int (c_outputTokens (apportion 15 (Some ?u))) - scaled 11 15 22\<bar> \<le> 1 / 2"
    using apportion_exact [OF h, of 15] unfolding u by blast
  have e: "apportion 1 (Some ?u)
     = \<lparr>c_inputTokens = 0, c_outputTokens = 1, c_cachedInputTokens = 0,
        c_cacheCreationTokens = 0\<rparr>"
    by code_simp
  show ?thesis
    using h s a b c d e by blast
qed

section \<open>Facts about the reducer\<close>

lemma set_set_add: "set (set_add xs x) = insert x (set xs)"
  by (auto simp: set_add_def)

lemma map_of_map_set: "map_of (map_set m k v) = (map_of m)(k \<mapsto> v)"
  by (induction m) auto

lemma reduceUsage_hashes:
  "r_processedHashes (reduceUsage gp cc e u st) = r_processedHashes st"
  by (simp add: reduceUsage_def Let_def split: option.splits)

lemma processEntry_seen:
  "createUniqueHash e = Some h \<Longrightarrow> h \<in> set (r_processedHashes st)
     \<Longrightarrow> processEntry tz yr gp cc e st = st"
  by (simp add: processEntry_def)

lemma processEntry_hashes:
  "set (r_processedHashes (processEntry tz yr gp cc e st))
     = set (r_processedHashes st) \<union> set_option (createUniqueHash e)"
  by (auto simp: processEntry_def Let_def reduceUsage_hashes set_set_add split: option.splits)

lemma processLine_hashes:
  "set (r_processedHashes (processLine tz yr gp cc l st))
     = set (r_processedHashes st) \<union> set_option (lineHash l)"
  by (cases l) (simp_all add: processLine_def lineHash_def processEntry_hashes)

lemma fold_processLine_hashes:
  "set (r_processedHashes (fold (processLine tz yr gp cc) ls st))
     = set (r_processedHashes st) \<union> (\<Union>l\<in>set ls. set_option (lineHash l))"
  by (induction ls arbitrary: st) (auto simp: processLine_hashes)

lemma processLine_seen:
  "identified l \<Longrightarrow> set_option (lineHash l) \<subseteq> set (r_processedHashes st)
     \<Longrightarrow> processLine tz yr gp cc l st = st"
  by (cases l) (auto simp: processLine_def lineHash_def identified_def processEntry_seen)

lemma fold_processLine_seen:
  "list_all identified ls
     \<Longrightarrow> (\<Union>l\<in>set ls. set_option (lineHash l)) \<subseteq> set (r_processedHashes st)
     \<Longrightarrow> fold (processLine tz yr gp cc) ls st = st"
  by (induction ls arbitrary: st) (auto simp: processLine_seen)

lemma processFiles_flat:
  "processFiles tz yr gp cc files st = fold (processLine tz yr gp cc) (concat files) st"
  by (induction files arbitrary: st) (simp_all add: processFiles_def)

lemma fold_processFiles_flat:
  "fold (processFiles tz yr gp cc) roots st
     = fold (processLine tz yr gp cc) (concat (concat roots)) st"
  by (induction roots arbitrary: st) (simp_all add: processFiles_flat)

lemma fold_processLine_twice:
  assumes "list_all identified ls"
  shows "fold (processLine tz yr gp cc) (ls @ ls) st = fold (processLine tz yr gp cc) ls st"
proof -
  have "(\<Union>l\<in>set ls. set_option (lineHash l))
          \<subseteq> set (r_processedHashes (fold (processLine tz yr gp cc) ls st))"
    by (simp add: fold_processLine_hashes)
  then show ?thesis
    using assms by (simp add: fold_processLine_seen)
qed

lemma allIdentified_flat: "allIdentified roots = list_all identified (concat (concat roots))"
  by (simp add: allIdentified_def list_all_iff)

lemma reduceUsage_models:
  "r_modelTokenTotals (reduceUsage gp cc entry usage st)
     = (case e_model entry of
          None \<Rightarrow> r_modelTokenTotals st
        | Some model \<Rightarrow>
            if trim model = [] then r_modelTokenTotals st
            else map_set (r_modelTokenTotals st) model
                   (map_get0 (r_modelTokenTotals st) model + entryTotalOf usage))"
  by (simp add: reduceUsage_def entryTotalOf_def Let_def split: option.splits)

lemma processLine_outside_cost:
  "outsideYear tz yr l \<Longrightarrow> r_totalCostUSD (processLine tz yr gp cc l st) = r_totalCostUSD st"
  by (auto simp: outsideYear_def processLine_def processEntry_def Let_def split: option.splits)

lemma fold_processLine_outside_cost:
  "list_all (outsideYear tz yr) ls
     \<Longrightarrow> r_totalCostUSD (fold (processLine tz yr gp cc) ls st) = r_totalCostUSD st"
  by (induction ls arbitrary: st) (simp_all add: processLine_outside_cost)

lemma noEventInYear_flat:
  "noEventInYear tz yr roots = list_all (outsideYear tz yr) (concat (concat roots))"
  by (simp add: noEventInYear_def list_all_iff)

lemma collect_outside_cost:
  "noEventInYear tz yr roots
     \<Longrightarrow> u_totalCostUSD (collectClaudeUsageSummary tz yr gp cc roots) = 0"
  by (simp add: collectClaudeUsageSummary_def fold_processFiles_flat summaryOf_def
        noEventInYear_flat fold_processLine_outside_cost initialState_def)

lemma body_totalCost:
  "totalCost (calculateStats_body tz yr statsCache usageSummary) = u_totalCostUSD usageSummary"
  by (simp add: calculateStats_body_def Let_def)

lemma body_hasUsageCost:
  "hasUsageCost (calculateStats_body tz yr statsCache usageSummary)
     = (u_totalCostUSD usageSummary > 0)"
  by (simp add: calculateStats_body_def Let_def)

lemma keys_map_set: "fst ` set (map_set m k v) = insert k (fst ` set m)"
  by (simp add: dom_map_of_conv_image_fst [symmetric] map_of_map_set)

lemma sum_map_set:
  "sum_list (map snd (map_set m k (map_get0 m k + v))) = sum_list (map snd m) + v"
  by (induction m) (auto simp: map_get0_def)

lemma nonneg_map_get0: "list_all (\<lambda>e. 0 \<le> snd e) m \<Longrightarrow> 0 \<le> map_get0 m k"
  by (induction m) (auto simp: map_get0_def)

lemma nonneg_map_set:
  "list_all (\<lambda>e. (0::int) \<le> snd e) m \<Longrightarrow> 0 \<le> v \<Longrightarrow> list_all (\<lambda>e. 0 \<le> snd e) (map_set m k v)"
  by (induction m) auto

lemma distinct_map_set: "distinct (map fst m) \<Longrightarrow> distinct (map fst (map_set m k v))"
proof (induction m)
  case Nil
  then show ?case by simp
next
  case (Cons e m)
  have "fst ` set (map_set m k v) = insert k (fst ` set m)"
    by (rule keys_map_set)
  then show ?case
    using Cons by (cases e) auto
qed

lemma map_set_new: "k \<notin> fst ` set m \<Longrightarrow> map_set m k v = m @ [(k, v)]"
  by (induction m) auto

lemma fold_copy:
  "distinct (map fst (acc @ xs))
     \<Longrightarrow> fold (\<lambda>(k, v) m. map_set m k v) xs acc = acc @ xs"
proof (induction xs arbitrary: acc)
  case Nil
  then show ?case by simp
next
  case (Cons e xs)
  obtain k v where e: "e = (k, v)" by (cases e)
  have n: "k \<notin> fst ` set acc"
    using Cons.prems by (auto simp: e)
  have d: "distinct (map fst ((acc @ [(k, v)]) @ xs))"
    using Cons.prems by (simp add: e)
  show ?case
    using Cons.IH [OF d] by (simp add: e map_set_new [OF n])
qed

lemma reduceUsage_scalars:
  "r_totalTokens (reduceUsage gp cc e u st) = r_totalTokens st + entryTotalOf u"
  "r_totalInputTokens (reduceUsage gp cc e u st) = r_totalInputTokens st + ensureNumber (input_tokens u)"
  "r_totalOutputTokens (reduceUsage gp cc e u st) = r_totalOutputTokens st + ensureNumber (output_tokens u)"
  "r_totalCacheCreationTokens (reduceUsage gp cc e u st)
     = r_totalCacheCreationTokens st + ensureNumber (cache_creation_input_tokens u)"
  "r_totalCacheReadTokens (reduceUsage gp cc e u st)
     = r_totalCacheReadTokens st + ensureNumber (cache_read_input_tokens u)"
  by (simp_all add: reduceUsage_def entryTotalOf_def Let_def split: option.splits)

lemma reduceUsage_scalarsInv:
  assumes "nonNegativeTokens (Some e)" "e_usage e = Some u" "scalarsInv st"
  shows "scalarsInv (reduceUsage gp cc e u st)"
  using assms
  by (simp add: scalarsInv_def reduceUsage_scalars entryTotalOf_def nonNegativeTokens_def)

lemma reduceUsage_modelsInv:
  assumes "nonNegativeTokens (Some e)" "usageHasModel (Some e)" "e_usage e = Some u" "modelsInv st"
  shows "modelsInv (reduceUsage gp cc e u st)"
proof -
  obtain model where m: "e_model e = Some model" "trim model \<noteq> []"
    using assms(2,3) by (auto simp: usageHasModel_def split: option.splits)
  have t: "0 \<le> entryTotalOf u"
    using assms(1,3) by (simp add: nonNegativeTokens_def entryTotalOf_def)
  have r: "r_modelTokenTotals (reduceUsage gp cc e u st)
         = map_set (r_modelTokenTotals st) model (map_get0 (r_modelTokenTotals st) model + entryTotalOf u)"
    using m by (simp add: reduceUsage_models)
  have g: "0 \<le> map_get0 (r_modelTokenTotals st) model"
    using assms(4) by (simp add: modelsInv_def nonneg_map_get0)
  show ?thesis
    using assms(4) t g
    by (simp add: modelsInv_def r reduceUsage_scalars sum_map_set nonneg_map_set distinct_map_set)
qed

lemma processLine_scalarsInv:
  assumes "nonNegativeTokens l" "scalarsInv st"
  shows "scalarsInv (processLine tz yr gp cc l st)"
proof (cases l)
  case None
  then show ?thesis using assms by (simp add: processLine_def)
next
  case (Some e)
  show ?thesis
  proof (cases "e_usage e")
    case None
    then show ?thesis
      using assms Some
      by (simp add: processLine_def processEntry_def scalarsInv_def Let_def split: option.splits)
  next
    case u: (Some u)
    have r: "\<And>s. scalarsInv s \<Longrightarrow> scalarsInv (reduceUsage gp cc e u s)"
      using assms(1) Some u by (intro reduceUsage_scalarsInv) simp_all
    show ?thesis
      using assms(2) Some u
      by (auto simp: processLine_def processEntry_def Let_def intro!: r split: option.splits)
         (simp_all add: scalarsInv_def)
  qed
qed

lemma processLine_modelsInv:
  assumes "nonNegativeTokens l" "usageHasModel l" "modelsInv st"
  shows "modelsInv (processLine tz yr gp cc l st)"
proof (cases l)
  case None
  then show ?thesis using assms by (simp add: processLine_def)
next
  case (Some e)
  show ?thesis
  proof (cases "e_usage e")
    case None
    then show ?thesis
      using assms Some
      by (simp add: processLine_def processEntry_def modelsInv_def Let_def split: option.splits)
  next
    case u: (Some u)
    have r: "\<And>s. modelsInv s \<Longrightarrow> modelsInv (reduceUsage gp cc e u s)"
      using assms(1,2) Some u by (intro reduceUsage_modelsInv) simp_all
    show ?thesis
      using assms(3) Some u
      by (auto simp: processLine_def processEntry_def Let_def intro!: r split: option.splits)
         (simp_all add: modelsInv_def)
  qed
qed

lemma collect_scalarsInv:
  assumes "nonNegativeLogs roots"
  shows "scalarsInv (fold (processFiles tz yr gp cc) roots (initialState :: 'a CollectState))"
proof -
  have "list_all nonNegativeTokens ls \<Longrightarrow> scalarsInv st
          \<Longrightarrow> scalarsInv (fold (processLine tz yr gp cc) ls st)" for ls and st :: "'a CollectState"
    by (induction ls arbitrary: st) (simp_all add: processLine_scalarsInv)
  moreover have "list_all nonNegativeTokens (concat (concat roots))"
    using assms by (simp add: nonNegativeLogs_def list_all_iff)
  moreover have "scalarsInv (initialState :: 'a CollectState)"
    by (simp add: scalarsInv_def initialState_def)
  ultimately show ?thesis
    by (simp add: fold_processFiles_flat)
qed

lemma collect_modelsInv:
  assumes "nonNegativeLogs roots" "allUsageWithModel roots"
  shows "modelsInv (fold (processFiles tz yr gp cc) roots (initialState :: 'a CollectState))"
proof -
  have "list_all nonNegativeTokens ls \<Longrightarrow> list_all usageHasModel ls \<Longrightarrow> modelsInv st
          \<Longrightarrow> modelsInv (fold (processLine tz yr gp cc) ls st)" for ls and st :: "'a CollectState"
    by (induction ls arbitrary: st) (simp_all add: processLine_modelsInv)
  moreover have "list_all nonNegativeTokens (concat (concat roots))"
    using assms by (simp add: nonNegativeLogs_def list_all_iff)
  moreover have "list_all usageHasModel (concat (concat roots))"
    using assms by (simp add: allUsageWithModel_def list_all_iff)
  moreover have "modelsInv (initialState :: 'a CollectState)"
    by (simp add: modelsInv_def initialState_def)
  ultimately show ?thesis
    by (simp add: fold_processFiles_flat)
qed

section \<open>Dedup idempotence\<close>

text \<open>
  Claim C4.  When every record of the log files carries both a message identifier and a
  request identifier, scanning the same roots (the same files) twice in one run gives
  the same usage summary as scanning them once: token scalars, cost, per-model totals,
  daily activity, first timestamp, message and session counts.
\<close>

theorem dedup_idempotent:
  assumes "allIdentified roots"
  shows "collectClaudeUsageSummary tz yr gp cc (roots @ roots)
           = collectClaudeUsageSummary tz yr gp cc roots"
proof -
  have "list_all identified (concat (concat roots))"
    using assms by (simp add: allIdentified_flat)
  then have "fold (processLine tz yr gp cc) (concat (concat roots) @ concat (concat roots))
               initialState
             = fold (processLine tz yr gp cc) (concat (concat roots)) initialState"
    by (rule fold_processLine_twice)
  then show ?thesis
    by (simp add: collectClaudeUsageSummary_def fold_processFiles_flat)
qed

theorem dedup_idempotent_witness:
  "allIdentified [[[Some entryA, None, Some entryNoModel], [Some entryLastYear]]]
   \<and> collectClaudeUsageSummary 0 2025 flatPricing flatCost
        ([[[Some entryA, None, Some entryNoModel], [Some entryLastYear]]]
           @ [[[Some entryA, None, Some entryNoModel], [Some entryLastYear]]])
      = collectClaudeUsageSummary 0 2025 flatPricing flatCost
          [[[Some entryA, None, Some entryNoModel], [Some entryLastYear]]]
   \<and> u_totalMessages (collectClaudeUsageSummary 0 2025 flatPricing flatCost
          [[[Some entryA, None, Some entryNoModel], [Some entryLastYear]]]) = 2
   \<and> u_totalTokens (collectClaudeUsageSummary 0 2025 flatPricing flatCost
          [[[Some entryA, None, Some entryNoModel], [Some entryLastYear]]]) = 20"
proof -
  have h: "allIdentified [[[Some entryA, None, Some entryNoModel], [Some entryLastYear]]]"
    by code_simp
  have m: "u_totalMessages (collectClaudeUsageSummary 0 2025 flatPricing flatCost
          [[[Some entryA, None, Some entryNoModel], [Some entryLastYear]]]) = 2"
    by code_simp
  have t: "u_totalTokens (collectClaudeUsageSummary 0 2025 flatPricing flatCost
          [[[Some entryA, None, Some entryNoModel], [Some entryLastYear]]]) = 20"
    by code_simp
  show ?thesis
    using h m t dedup_idempotent [OF h, of 0 2025 flatPricing flatCost] by blast
qed

section \<open>Cost comes from the live summary only\<close>

text \<open>
  Claim C10.  The snapshot's total cost is the live usage summary's \<open>totalCostUSD\<close>,
  whatever the stats cache holds, and \<open>hasUsageCost\<close> says whether it is positive; so when
  no raw log record falls in the requested year the total cost is 0 and \<open>hasUsageCost\<close> is
  false, also with a cache that records costs.
\<close>

theorem total_cost_live_only:
  "totalCost (calculateStats_body tz yr statsCache usageSummary) = u_totalCostUSD usageSummary
   \<and> hasUsageCost (calculateStats_body tz yr statsCache usageSummary)
       = (u_totalCostUSD usageSummary > 0)
   \<and> (noEventInYear tz yr roots
        \<longrightarrow> totalCost (calculateStats_body tz yr statsCache
                          (collectClaudeUsageSummary tz yr gp cc roots)) = 0
            \<and> \<not> hasUsageCost (calculateStats_body tz yr statsCache
                                 (collectClaudeUsageSummary tz yr gp cc roots)))"
  by (simp add: body_totalCost body_hasUsageCost collect_outside_cost)

theorem total_cost_live_only_witness:
  "noEventInYear 0 2025 [[[Some entryLastYear]]]
   \<and> totalCost (calculateStats_body 0 2025 cacheWithCost
        (collectClaudeUsageSummary 0 2025 flatPricing flatCost [[[Some entryLastYear]]])) = 0
   \<and> \<not> hasUsageCost (calculateStats_body 0 2025 cacheWithCost
        (collectClaudeUsageSummary 0 2025 flatPricing flatCost [[[Some entryLastYear]]]))
   \<and> totalMessages (calculateStats_body 0 2025 cacheWithCost
        (collectClaudeUsageSummary 0 2025 flatPricing flatCost [[[Some entryLastYear]]])) = 4"
proof -
  have h: "noEventInYear 0 2025 [[[Some entryLastYear]]]"
    by code_simp
  have m: "totalMessages (calculateStats_body 0 2025 cacheWithCost
        (collectClaudeUsageSummary 0 2025 flatPricing flatCost [[[Some entryLastYear]]])) = 4"
    by code_simp
  show ?thesis
    using h m total_cost_live_only [of 0 2025 cacheWithCost _ "[[[Some entryLastYear]]]" flatPricing flatCost]
    by blast
qed

section \<open>Facts about the merger\<close>

lemma modelStep_skip: "snd e \<le> 0 \<Longrightarrow> modelStep has mu e acc = acc"
  by (cases e) (simp add: modelStep_def)

lemma modelStep_has:
  "t_totalTokens (modelStep True mu e acc) = t_totalTokens acc"
  "t_totalInputTokens (modelStep True mu e acc) = t_totalInputTokens acc"
  "t_totalOutputTokens (modelStep True mu e acc) = t_totalOutputTokens acc"
  "t_totalCacheReadTokens (modelStep True mu e acc) = t_totalCacheReadTokens acc"
  "t_totalCacheWriteTokens (modelStep True mu e acc) = t_totalCacheWriteTokens acc"
  by (cases e; simp add: modelStep_def Let_def split: option.splits)+

lemma fold_modelStep_has:
  "t_totalTokens (fold (modelStep True mu) ms acc) = t_totalTokens acc
   \<and> t_totalInputTokens (fold (modelStep True mu) ms acc) = t_totalInputTokens acc
   \<and> t_totalOutputTokens (fold (modelStep True mu) ms acc) = t_totalOutputTokens acc
   \<and> t_totalCacheReadTokens (fold (modelStep True mu) ms acc) = t_totalCacheReadTokens acc
   \<and> t_totalCacheWriteTokens (fold (modelStep True mu) ms acc) = t_totalCacheWriteTokens acc"
  by (induction ms arbitrary: acc) (simp_all add: modelStep_has)

lemma apportion_None:
  "c_cachedInputTokens (apportion tokens None) = 0"
  "c_cacheCreationTokens (apportion tokens None) = 0"
  by (simp_all add: apportion_def)

lemma modelStep_acc:
  assumes "snd e > 0"
  shows "t_totalTokens (modelStep False mu e acc) = t_totalTokens acc + snd e"
    and "t_totalInputTokens (modelStep False mu e acc)
           = t_totalInputTokens acc + c_inputTokens (apportioned mu e)"
    and "t_totalOutputTokens (modelStep False mu e acc)
           = t_totalOutputTokens acc + c_outputTokens (apportioned mu e)"
    and "t_totalCacheReadTokens (modelStep False mu e acc)
           = t_totalCacheReadTokens acc + c_cachedInputTokens (apportioned mu e)"
    and "t_totalCacheWriteTokens (modelStep False mu e acc)
           = t_totalCacheWriteTokens acc + c_cacheCreationTokens (apportioned mu e)"
  using assms
  by (cases e; simp add: modelStep_def Let_def apportioned_def apportion_None split: option.splits)+

lemma fold_modelStep_acc:
  "t_totalTokens (fold (modelStep False mu) ms acc)
     = t_totalTokens acc + sum_list (map snd (positiveModels ms))
   \<and> t_totalInputTokens (fold (modelStep False mu) ms acc)
     = t_totalInputTokens acc + sum_list (map (\<lambda>e. c_inputTokens (apportioned mu e)) (positiveModels ms))
   \<and> t_totalOutputTokens (fold (modelStep False mu) ms acc)
     = t_totalOutputTokens acc + sum_list (map (\<lambda>e. c_outputTokens (apportioned mu e)) (positiveModels ms))
   \<and> t_totalCacheReadTokens (fold (modelStep False mu) ms acc)
     = t_totalCacheReadTokens acc + sum_list (map (\<lambda>e. c_cachedInputTokens (apportioned mu e)) (positiveModels ms))
   \<and> t_totalCacheWriteTokens (fold (modelStep False mu) ms acc)
     = t_totalCacheWriteTokens acc + sum_list (map (\<lambda>e. c_cacheCreationTokens (apportioned mu e)) (positiveModels ms))"
proof (induction ms arbitrary: acc)
  case Nil
  then show ?case by (simp add: positiveModels_def)
next
  case (Cons e ms)
  show ?case
  proof (cases "snd e > 0")
    case True
    then show ?thesis
      using Cons.IH [of "modelStep False mu e acc"]
      by (simp add: positiveModels_def modelStep_acc)
  next
    case False
    then have "modelStep False mu e acc = acc"
      by (simp add: modelStep_skip)
    then show ?thesis
      using Cons.IH [of acc] False by (simp add: positiveModels_def)
  qed
qed

lemma modelStep_stats:
  "t_modelStats (modelStep has mu e acc)
     = t_modelStats acc @ (if snd e > 0 then [\<lparr>m_id = fst e, m_count = snd e, m_percentage = 0\<rparr>] else [])"
  by (cases e) (simp add: modelStep_def Let_def split: option.splits)

lemma fold_modelStep_stats:
  "t_modelStats (fold (modelStep has mu) ms acc)
     = t_modelStats acc
         @ map (\<lambda>e. \<lparr>m_id = fst e, m_count = snd e, m_percentage = 0\<rparr>) (positiveModels ms)"
  by (induction ms arbitrary: acc) (simp_all add: modelStep_stats positiveModels_def)

lemma body_scalars:
  "totalTokens (calculateStats_body tz yr sc us)
     = t_totalTokens (mergeTokens (orEmpty (sc_modelUsage sc)) (mergeModelTokenTotals tz yr sc us) us)"
  "totalInputTokens (calculateStats_body tz yr sc us)
     = t_totalInputTokens (mergeTokens (orEmpty (sc_modelUsage sc)) (mergeModelTokenTotals tz yr sc us) us)"
  "totalOutputTokens (calculateStats_body tz yr sc us)
     = t_totalOutputTokens (mergeTokens (orEmpty (sc_modelUsage sc)) (mergeModelTokenTotals tz yr sc us) us)"
  "totalCacheReadTokens (calculateStats_body tz yr sc us)
     = t_totalCacheReadTokens (mergeTokens (orEmpty (sc_modelUsage sc)) (mergeModelTokenTotals tz yr sc us) us)"
  "totalCacheWriteTokens (calculateStats_body tz yr sc us)
     = t_totalCacheWriteTokens (mergeTokens (orEmpty (sc_modelUsage sc)) (mergeModelTokenTotals tz yr sc us) us)"
  by (simp_all add: calculateStats_body_def Let_def)

lemma has_iff_nonzero:
  "liveScalarsNonneg us \<Longrightarrow> hasUsageSummaryTokens us = (\<not> liveScalarsZero us)"
  by (auto simp: liveScalarsNonneg_def hasUsageSummaryTokens_def liveScalarsZero_def)

lemma mergeTokens_has:
  assumes "hasUsageSummaryTokens us"
  shows "t_totalTokens (mergeTokens mu ms us) = u_totalTokens us
   \<and> t_totalInputTokens (mergeTokens mu ms us) = u_totalInputTokens us
   \<and> t_totalOutputTokens (mergeTokens mu ms us) = u_totalOutputTokens us
   \<and> t_totalCacheReadTokens (mergeTokens mu ms us) = u_totalCacheReadTokens us
   \<and> t_totalCacheWriteTokens (mergeTokens mu ms us) = u_totalCacheCreationTokens us"
  using assms by (simp add: mergeTokens_def fold_modelStep_has)

lemma mergeTokens_zero:
  assumes "liveScalarsZero us"
  shows "t_totalTokens (mergeTokens mu ms us) = sum_list (map snd (positiveModels ms))
   \<and> t_totalInputTokens (mergeTokens mu ms us)
       = sum_list (map (\<lambda>e. c_inputTokens (apportioned mu e)) (positiveModels ms))
   \<and> t_totalOutputTokens (mergeTokens mu ms us)
       = sum_list (map (\<lambda>e. c_outputTokens (apportioned mu e)) (positiveModels ms))
   \<and> t_totalCacheReadTokens (mergeTokens mu ms us)
       = sum_list (map (\<lambda>e. c_cachedInputTokens (apportioned mu e)) (positiveModels ms))
   \<and> t_totalCacheWriteTokens (mergeTokens mu ms us)
       = sum_list (map (\<lambda>e. c_cacheCreationTokens (apportioned mu e)) (positiveModels ms))"
proof -
  have "\<not> hasUsageSummaryTokens us"
    using assms by (simp add: liveScalarsZero_def hasUsageSummaryTokens_def)
  then show ?thesis
    using assms by (simp add: mergeTokens_def fold_modelStep_acc liveScalarsZero_def)
qed

lemma allModelStats_eq:
  "allModelStats tz yr sc us
     = map (\<lambda>e. \<lparr>m_id = fst e, m_count = snd e, m_percentage = 0\<rparr>)
         (positiveModels (mergeModelTokenTotals tz yr sc us))"
  by (simp add: allModelStats_def mergeTokens_def fold_modelStep_stats)

lemma allModelStats_counts:
  "sum_list (map m_count (allModelStats tz yr sc us))
     = sum_list (map snd (positiveModels (mergeModelTokenTotals tz yr sc us)))"
  by (simp add: allModelStats_eq comp_def)

lemma nonneg_sum: "list_all (\<lambda>e. snd e > (0::int)) ms \<Longrightarrow> sum_list (map snd ms) \<ge> 0"
  by (induction ms) auto

lemma positive_sum:
  "ms \<noteq> [] \<Longrightarrow> list_all (\<lambda>e. snd e > (0::int)) ms \<Longrightarrow> sum_list (map snd ms) > 0"
  using nonneg_sum by (cases ms) fastforce+

lemma positiveModels_pos: "list_all (\<lambda>e. snd e > 0) (positiveModels ms)"
  by (simp add: positiveModels_def list_all_iff)

lemma body_topModels:
  "topModels (calculateStats_body tz yr sc us)
     = map (withPercentage (totalTokens (calculateStats_body tz yr sc us)))
         (take 3 (sortByCountDesc (allModelStats tz yr sc us)))"
  by (simp add: calculateStats_body_def Let_def topModelsOf_def allModelStats_def)

lemma withPercentage_sel:
  "m_percentage (withPercentage t m) = percentageOf t (m_count m)"
  "m_count (withPercentage t m) = m_count m"
  by (simp_all add: withPercentage_def)

lemma reduceUsage_nonneg:
  assumes "0 \<le> ensureNumber (input_tokens u)" "0 \<le> ensureNumber (output_tokens u)"
    "0 \<le> ensureNumber (cache_creation_input_tokens u)" "0 \<le> ensureNumber (cache_read_input_tokens u)"
    "liveScalarsNonneg (summaryOf st)"
  shows "liveScalarsNonneg (summaryOf (reduceUsage gp cc e u st))"
  using assms
  by (simp add: reduceUsage_def liveScalarsNonneg_def summaryOf_def Let_def split: option.splits)

lemma processLine_nonneg:
  assumes "nonNegativeTokens l" "liveScalarsNonneg (summaryOf st)"
  shows "liveScalarsNonneg (summaryOf (processLine tz yr gp cc l st))"
proof (cases l)
  case None
  then show ?thesis using assms by (simp add: processLine_def)
next
  case (Some e)
  show ?thesis
  proof (cases "e_usage e")
    case None
    then show ?thesis
      using assms Some
      by (simp add: processLine_def processEntry_def liveScalarsNonneg_def summaryOf_def Let_def
            split: option.splits)
  next
    case u: (Some u)
    have r: "\<And>s. liveScalarsNonneg (summaryOf s) \<Longrightarrow>
               liveScalarsNonneg (summaryOf (reduceUsage gp cc e u s))"
      using assms(1) Some u by (intro reduceUsage_nonneg) (simp_all add: nonNegativeTokens_def)
    show ?thesis
      using assms(2) Some u
      by (auto simp: processLine_def processEntry_def Let_def intro!: r split: option.splits)
         (simp_all add: liveScalarsNonneg_def summaryOf_def)
  qed
qed

lemma collect_nonneg:
  assumes "list_all (list_all (list_all nonNegativeTokens)) roots"
  shows "liveScalarsNonneg (collectClaudeUsageSummary tz yr gp cc roots)"
proof -
  have "list_all nonNegativeTokens ls \<Longrightarrow> liveScalarsNonneg (summaryOf st)
          \<Longrightarrow> liveScalarsNonneg (summaryOf (fold (processLine tz yr gp cc) ls st))" for ls and st :: "'a CollectState"
    by (induction ls arbitrary: st) (simp_all add: processLine_nonneg)
  moreover have "list_all nonNegativeTokens (concat (concat roots))"
    using assms by (simp add: list_all_iff)
  moreover have "liveScalarsNonneg (summaryOf (initialState :: 'a CollectState))"
    by (simp add: liveScalarsNonneg_def summaryOf_def initialState_def)
  ultimately show ?thesis
    by (simp add: collectClaudeUsageSummary_def fold_processFiles_flat)
qed

lemma percentageOf_error:
  assumes "T > 0" "c \<ge> 0"
  shows "\<bar>percentageOf T c - 100 * (of_int c / of_int T)\<bar> \<le> 201 / 2 ^ 53 * (of_int c / of_int T)"
proof -
  define x :: rat where "x = of_int c / of_int T"
  define a where "a = fl x"
  define b where "b = fl (a * 100)"
  have x0: "x \<ge> 0" using assms by (simp add: x_def)
  have p: "percentageOf T c = b"
    using assms by (simp add: percentageOf_def fmul_def fdiv_def b_def a_def x_def)
  have e1: "\<bar>a - x\<bar> \<le> x / 2 ^ 53"
    using fl_error [of x] x0 by (simp add: a_def)
  have a1: "\<bar>a\<bar> \<le> x * (1 + 1 / 2 ^ 53)"
    using fl_bound [of x] x0 by (simp add: a_def)
  have e2: "\<bar>b - a * 100\<bar> \<le> \<bar>a * 100\<bar> / 2 ^ 53"
    unfolding b_def by (rule fl_error)
  have "\<bar>b - 100 * x\<bar> \<le> \<bar>b - a * 100\<bar> + 100 * \<bar>a - x\<bar>"
    by (simp add: abs_if split: if_splits)
  also have "\<dots> \<le> \<bar>a * 100\<bar> / 2 ^ 53 + 100 * (x / 2 ^ 53)"
    using e1 e2 by simp
  also have "\<dots> \<le> (x * (1 + 1 / 2 ^ 53)) * 100 / 2 ^ 53 + 100 * (x / 2 ^ 53)"
    using a1 by (simp add: abs_mult)
  also have "\<dots> = x * (200 / 2 ^ 53 + 100 / (2 ^ 53 * 2 ^ 53))"
    by (simp add: algebra_simps)
  also have "\<dots> \<le> x * (201 / 2 ^ 53)"
    using x0 by (intro mult_left_mono) simp_all
  finally show ?thesis
    by (simp add: p x_def)
qed

lemma percentageSum_error:
  assumes "T > 0" "list_all (\<lambda>m. m_count m \<ge> 0) ms"
  shows "\<bar>percentageSum T ms - 100 * (of_int (sum_list (map m_count ms)) / of_int T)\<bar>
           \<le> 201 / 2 ^ 53 * (of_int (sum_list (map m_count ms)) / of_int T)"
  using assms(2)
proof (induction ms)
  case Nil
  then show ?case by (simp add: percentageSum_def)
next
  case (Cons m ms)
  have h: "\<bar>percentageOf T (m_count m) - 100 * (of_int (m_count m) / of_int T)\<bar>
          \<le> 201 / 2 ^ 53 * (of_int (m_count m) / of_int T)"
    using Cons.prems assms(1) by (intro percentageOf_error) simp_all
  have i: "\<bar>percentageSum T ms - 100 * (of_int (sum_list (map m_count ms)) / of_int T)\<bar>
           \<le> 201 / 2 ^ 53 * (of_int (sum_list (map m_count ms)) / of_int T)"
    using Cons by simp
  have s: "percentageSum T (m # ms) = percentageOf T (m_count m) + percentageSum T ms"
    by (simp add: percentageSum_def)
  have "\<bar>percentageSum T (m # ms) - 100 * (of_int (sum_list (map m_count (m # ms))) / of_int T)\<bar>
     = \<bar>(percentageOf T (m_count m) - 100 * (of_int (m_count m) / of_int T))
        + (percentageSum T ms - 100 * (of_int (sum_list (map m_count ms)) / of_int T))\<bar>"
    by (simp add: s algebra_simps add_divide_distrib)
  also have "\<dots> \<le> 201 / 2 ^ 53 * (of_int (m_count m) / of_int T)
        + 201 / 2 ^ 53 * (of_int (sum_list (map m_count ms)) / of_int T)"
    using h i by linarith
  also have "\<dots> = 201 / 2 ^ 53 * (of_int (sum_list (map m_count (m # ms))) / of_int T)"
    by (simp add: algebra_simps add_divide_distrib)
  finally show ?case .
qed

lemma percentageSum_100:
  assumes "T > 0" "list_all (\<lambda>m. m_count m \<ge> 0) ms" "sum_list (map m_count ms) = T"
  shows "\<bar>percentageSum T ms - 100\<bar> \<le> 201 / 2 ^ 53"
  using percentageSum_error [OF assms(1,2)] assms(1) by (simp add: assms(3))

lemma positiveModels_sum:
  "list_all (\<lambda>e. (0::int) \<le> snd e) m \<Longrightarrow> sum_list (map snd (positiveModels m)) = sum_list (map snd m)"
  by (induction m) (auto simp: positiveModels_def)

lemma merge_live:
  assumes "u_modelTokenTotals us \<noteq> []" "distinct (map fst (u_modelTokenTotals us))"
  shows "mergeModelTokenTotals tz yr sc us = u_modelTokenTotals us"
proof -
  have "fold (\<lambda>(k, v) m. map_set m k v) (u_modelTokenTotals us) [] = [] @ u_modelTokenTotals us"
    using assms(2) by (intro fold_copy) simp
  then show ?thesis
    using assms(1) by (simp add: mergeModelTokenTotals_def Let_def)
qed

lemma allModelStats_pos: "list_all (\<lambda>m. m_count m > 0) (allModelStats tz yr sc us)"
  using positiveModels_pos [of "mergeModelTokenTotals tz yr sc us"]
  by (simp add: allModelStats_eq list_all_iff)

lemma topModels_elem:
  assumes "m \<in> set (topModels (calculateStats_body tz yr sc us))"
  shows "m_percentage m = percentageOf (totalTokens (calculateStats_body tz yr sc us)) (m_count m)
    \<and> m_count m > 0"
proof -
  obtain m0 where m0: "m0 \<in> set (take 3 (sortByCountDesc (allModelStats tz yr sc us)))"
    and m: "m = withPercentage (totalTokens (calculateStats_body tz yr sc us)) m0"
    using assms by (auto simp: body_topModels)
  have "m0 \<in> set (sortByCountDesc (allModelStats tz yr sc us))"
    using m0 by (rule in_set_takeD)
  then have "m0 \<in> set (allModelStats tz yr sc us)"
    by (simp add: sortByCountDesc_def)
  then have "m_count m0 > 0"
    using allModelStats_pos [of tz yr sc us] by (simp add: list_all_iff)
  then show ?thesis
    by (simp add: m withPercentage_sel)
qed

lemma counts_are_total:
  assumes nn: "nonNegativeLogs roots" and wm: "allUsageWithModel roots"
    and us: "us = collectClaudeUsageSummary tz yr gp cc roots"
    and T: "totalTokens (calculateStats_body tz yr sc us) > 0"
  shows "sum_list (map m_count (allModelStats tz yr sc us))
           = totalTokens (calculateStats_body tz yr sc us)"
proof (cases "hasUsageSummaryTokens us")
  case True
  have "modelsInv (fold (processFiles tz yr gp cc) roots initialState)"
    using nn wm by (rule collect_modelsInv)
  then have s: "sum_list (map snd (u_modelTokenTotals us)) = u_totalTokens us"
    and n: "list_all (\<lambda>e. 0 \<le> snd e) (u_modelTokenTotals us)"
    and d: "distinct (map fst (u_modelTokenTotals us))"
    by (simp_all add: us collectClaudeUsageSummary_def summaryOf_def modelsInv_def)
  have t: "totalTokens (calculateStats_body tz yr sc us) = u_totalTokens us"
    using mergeTokens_has [OF True] by (simp add: body_scalars)
  have ne: "u_modelTokenTotals us \<noteq> []"
    using s t T by auto
  have mm: "mergeModelTokenTotals tz yr sc us = u_modelTokenTotals us"
    using ne d by (rule merge_live)
  show ?thesis
    by (simp add: allModelStats_counts mm positiveModels_sum [OF n] s t)
next
  case False
  have "liveScalarsNonneg us"
    using nn by (simp add: us nonNegativeLogs_def collect_nonneg)
  then have z: "liveScalarsZero us"
    using False by (simp add: has_iff_nonzero)
  show ?thesis
    using mergeTokens_zero [OF z] by (simp add: body_scalars allModelStats_counts)
qed

lemma zero_total_no_models:
  assumes nn: "nonNegativeLogs roots"
    and us: "us = collectClaudeUsageSummary tz yr gp cc roots"
    and T: "totalTokens (calculateStats_body tz yr sc us) = 0"
  shows "topModels (calculateStats_body tz yr sc us) = []"
proof (cases "hasUsageSummaryTokens us")
  case True
  have "scalarsInv (fold (processFiles tz yr gp cc) roots initialState)"
    using nn by (rule collect_scalarsInv)
  then have "u_totalTokens us > 0"
    using True
    by (auto simp: us collectClaudeUsageSummary_def summaryOf_def scalarsInv_def
          hasUsageSummaryTokens_def)
  moreover have "totalTokens (calculateStats_body tz yr sc us) = u_totalTokens us"
    using mergeTokens_has [OF True] by (simp add: body_scalars)
  ultimately show ?thesis
    using T by simp
next
  case False
  have "liveScalarsNonneg us"
    using nn by (simp add: us nonNegativeLogs_def collect_nonneg)
  then have z: "liveScalarsZero us"
    using False by (simp add: has_iff_nonzero)
  have "sum_list (map snd (positiveModels (mergeModelTokenTotals tz yr sc us))) = 0"
    using mergeTokens_zero [OF z, of "orEmpty (sc_modelUsage sc)" "mergeModelTokenTotals tz yr sc us"] T
    by (simp add: body_scalars)
  then have "positiveModels (mergeModelTokenTotals tz yr sc us) = []"
    using positive_sum [OF _ positiveModels_pos, of "mergeModelTokenTotals tz yr sc us"] by fastforce
  then show ?thesis
    by (simp add: body_topModels allModelStats_eq sortByCountDesc_def)
qed

lemma nonneg_counts: "list_all (\<lambda>m. m_count m \<ge> 0) (allModelStats tz yr sc us)"
  using allModelStats_pos [of tz yr sc us] by (simp add: list_all_iff order_less_imp_le)

section \<open>Per-model totals in the reducer\<close>

text \<open>
  Claim C8 says that a record with a model identifier and a zero token total adds no
  entry to the per-model token map.  It fails on the code, which sets the model's entry
  before it tests the total (collector.ts 532--535): the record \<open>entryZero\<close> of model
  \<open>claude-z\<close> with a zero total leaves the entry \<open>claude-z \<mapsto> 0\<close> in the map.  The map is
  then not empty, which switches off the merger's fallback to the cache's per-model totals
  (stats.ts 64 and 81): with the cache \<open>cacheModels\<close> the snapshot has no tokens and no
  top model, whereas the same record without its model identifier gives the 40 tokens
  and the two models of the cache.
\<close>

theorem zero_total_record_adds_entry:
  "u_modelTokenTotals (collectClaudeUsageSummary 0 2025 noPricing flatCost [[[Some entryZero]]])
     = [(''claude-z'', 0)]
   \<and> totalTokens (calculateStats_body 0 2025 cacheModels
        (collectClaudeUsageSummary 0 2025 noPricing flatCost [[[Some entryZero]]])) = 0
   \<and> topModels (calculateStats_body 0 2025 cacheModels
        (collectClaudeUsageSummary 0 2025 noPricing flatCost [[[Some entryZero]]])) = []
   \<and> u_modelTokenTotals
        (collectClaudeUsageSummary 0 2025 noPricing flatCost [[[Some entryZeroNoModel]]]) = []
   \<and> totalTokens (calculateStats_body 0 2025 cacheModels
        (collectClaudeUsageSummary 0 2025 noPricing flatCost [[[Some entryZeroNoModel]]])) = 40
   \<and> map m_id (topModels (calculateStats_body 0 2025 cacheModels
        (collectClaudeUsageSummary 0 2025 noPricing flatCost [[[Some entryZeroNoModel]]])))
       = [''claude-a'', ''claude-b'']"
  by code_simp

section \<open>Precedence of the live token scalars\<close>

text \<open>
  Claim C2.  The live summary's token scalars are counts, so none is negative (the
  reducer's scalars are not when no token count of the logs is).  If any of
  the five (total, input, output, cache-read, cache-write) is nonzero, the snapshot's
  five token totals are exactly the live scalars: nothing from per-model apportionment is
  added.  If all five are zero, the totals are accumulated over the models of positive
  count: the total from the per-model counts, the four others from their apportioned
  components.
\<close>

theorem scalar_totals_precedence:
  assumes "liveScalarsNonneg us"
  shows "(\<not> liveScalarsZero us \<longrightarrow>
            totalTokens (calculateStats_body tz yr sc us) = u_totalTokens us
          \<and> totalInputTokens (calculateStats_body tz yr sc us) = u_totalInputTokens us
          \<and> totalOutputTokens (calculateStats_body tz yr sc us) = u_totalOutputTokens us
          \<and> totalCacheReadTokens (calculateStats_body tz yr sc us) = u_totalCacheReadTokens us
          \<and> totalCacheWriteTokens (calculateStats_body tz yr sc us) = u_totalCacheCreationTokens us)
     \<and> (liveScalarsZero us \<longrightarrow>
            totalTokens (calculateStats_body tz yr sc us)
              = sum_list (map snd (positiveModels (mergeModelTokenTotals tz yr sc us)))
          \<and> totalInputTokens (calculateStats_body tz yr sc us)
              = sum_list (map (\<lambda>e. c_inputTokens (apportioned (orEmpty (sc_modelUsage sc)) e))
                  (positiveModels (mergeModelTokenTotals tz yr sc us)))
          \<and> totalOutputTokens (calculateStats_body tz yr sc us)
              = sum_list (map (\<lambda>e. c_outputTokens (apportioned (orEmpty (sc_modelUsage sc)) e))
                  (positiveModels (mergeModelTokenTotals tz yr sc us)))
          \<and> totalCacheReadTokens (calculateStats_body tz yr sc us)
              = sum_list (map (\<lambda>e. c_cachedInputTokens (apportioned (orEmpty (sc_modelUsage sc)) e))
                  (positiveModels (mergeModelTokenTotals tz yr sc us)))
          \<and> totalCacheWriteTokens (calculateStats_body tz yr sc us)
              = sum_list (map (\<lambda>e. c_cacheCreationTokens (apportioned (orEmpty (sc_modelUsage sc)) e))
                  (positiveModels (mergeModelTokenTotals tz yr sc us))))"
proof (intro conjI impI)
  assume "\<not> liveScalarsZero us"
  then have h: "hasUsageSummaryTokens us"
    using assms by (simp add: has_iff_nonzero)
  note m = mergeTokens_has [OF h, of "orEmpty (sc_modelUsage sc)" "mergeModelTokenTotals tz yr sc us"]
  show "totalTokens (calculateStats_body tz yr sc us) = u_totalTokens us"
    using m by (simp add: body_scalars)
  show "totalInputTokens (calculateStats_body tz yr sc us) = u_totalInputTokens us"
    using m by (simp add: body_scalars)
  show "totalOutputTokens (calculateStats_body tz yr sc us) = u_totalOutputTokens us"
    using m by (simp add: body_scalars)
  show "totalCacheReadTokens (calculateStats_body tz yr sc us) = u_totalCacheReadTokens us"
    using m by (simp add: body_scalars)
  show "totalCacheWriteTokens (calculateStats_body tz yr sc us) = u_totalCacheCreationTokens us"
    using m by (simp add: body_scalars)
next
  assume z: "liveScalarsZero us"
  note m = mergeTokens_zero [OF z, of "orEmpty (sc_modelUsage sc)" "mergeModelTokenTotals tz yr sc us"]
  show "totalTokens (calculateStats_body tz yr sc us)
              = sum_list (map snd (positiveModels (mergeModelTokenTotals tz yr sc us)))"
    using m by (simp add: body_scalars)
  show "totalInputTokens (calculateStats_body tz yr sc us)
              = sum_list (map (\<lambda>e. c_inputTokens (apportioned (orEmpty (sc_modelUsage sc)) e))
                  (positiveModels (mergeModelTokenTotals tz yr sc us)))"
    using m by (simp add: body_scalars)
  show "totalOutputTokens (calculateStats_body tz yr sc us)
              = sum_list (map (\<lambda>e. c_outputTokens (apportioned (orEmpty (sc_modelUsage sc)) e))
                  (positiveModels (mergeModelTokenTotals tz yr sc us)))"
    using m by (simp add: body_scalars)
  show "totalCacheReadTokens (calculateStats_body tz yr sc us)
              = sum_list (map (\<lambda>e. c_cachedInputTokens (apportioned (orEmpty (sc_modelUsage sc)) e))
                  (positiveModels (mergeModelTokenTotals tz yr sc us)))"
    using m by (simp add: body_scalars)
  show "totalCacheWriteTokens (calculateStats_body tz yr sc us)
              = sum_list (map (\<lambda>e. c_cacheCreationTokens (apportioned (orEmpty (sc_modelUsage sc)) e))
                  (positiveModels (mergeModelTokenTotals tz yr sc us)))"
    using m by (simp add: body_scalars)
qed

theorem scalar_totals_precedence_witness:
  "liveScalarsNonneg (collectClaudeUsageSummary 0 2025 noPricing flatCost
      [[[Some entryA, Some entryNoModel]]])
   \<and> \<not> liveScalarsZero (collectClaudeUsageSummary 0 2025 noPricing flatCost
      [[[Some entryA, Some entryNoModel]]])
   \<and> totalTokens (calculateStats_body 0 2025 cacheModels
        (collectClaudeUsageSummary 0 2025 noPricing flatCost
          [[[Some entryA, Some entryNoModel]]])) = 20
   \<and> u_totalTokens (collectClaudeUsageSummary 0 2025 noPricing flatCost
          [[[Some entryA, Some entryNoModel]]]) = 20
   \<and> liveScalarsNonneg emptyUsage \<and> liveScalarsZero emptyUsage
   \<and> totalTokens (calculateStats_body 0 2025 cacheModels emptyUsage) = 40
   \<and> totalInputTokens (calculateStats_body 0 2025 cacheModels emptyUsage) = 30
   \<and> totalOutputTokens (calculateStats_body 0 2025 cacheModels emptyUsage) = 10"
proof -
  let ?us = "collectClaudeUsageSummary 0 2025 noPricing flatCost
      [[[Some entryA, Some entryNoModel]]]"
  have a: "liveScalarsNonneg ?us" by code_simp
  have b: "\<not> liveScalarsZero ?us" by code_simp
  have c: "u_totalTokens ?us = 20" by code_simp
  have d: "liveScalarsNonneg emptyUsage" by code_simp
  have e: "liveScalarsZero emptyUsage" by code_simp
  have f: "totalTokens (calculateStats_body 0 2025 cacheModels emptyUsage) = 40" by code_simp
  have g: "totalInputTokens (calculateStats_body 0 2025 cacheModels emptyUsage) = 30" by code_simp
  have h: "totalOutputTokens (calculateStats_body 0 2025 cacheModels emptyUsage) = 10" by code_simp
  have i: "totalTokens (calculateStats_body 0 2025 cacheModels ?us) = u_totalTokens ?us"
    using scalar_totals_precedence [OF a, of 0 2025 cacheModels] b by blast
  have j: "totalTokens (calculateStats_body 0 2025 cacheModels emptyUsage)
             = sum_list (map snd (positiveModels (mergeModelTokenTotals 0 2025 cacheModels emptyUsage)))"
    using scalar_totals_precedence [OF d, of 0 2025 cacheModels] e by blast
  show ?thesis
    using a b c d e f g h i j by simp
qed

section \<open>Percentages of the top models\<close>

text \<open>
  Claim C7, as amended.  The usage summary is the one the reducer returns on the logs.
  Every model of the top-models list has the percentage \<open>count / totalTokens * 100\<close> of
  the final merged total, computed in doubles and so within \<open>201 / 2 ^ 53 * count /
  totalTokens\<close> of the exact quotient.  Over the full, unsliced model list the percentages
  sum to 100 within \<open>201 / 2 ^ 53\<close> when the total is positive, provided that no token
  count of the logs is negative and every record with a usage block names a model, or
  else that the live summary reports no token scalar and the list is not empty.  When
  the total is not positive every percentage of the list is 0; with no negative token
  count a total of 0 leaves the list empty.
\<close>

theorem percentages_of_final_total:
  assumes "us = collectClaudeUsageSummary tz yr gp cc roots"
  shows "list_all
       (\<lambda>m. m_percentage m = percentageOf (totalTokens (calculateStats_body tz yr sc us)) (m_count m)
          \<and> (totalTokens (calculateStats_body tz yr sc us) > 0 \<longrightarrow>
               \<bar>m_percentage m
                 - 100 * (of_int (m_count m) / of_int (totalTokens (calculateStats_body tz yr sc us)))\<bar>
               \<le> 201 / 2 ^ 53
                    * (of_int (m_count m) / of_int (totalTokens (calculateStats_body tz yr sc us)))))
       (topModels (calculateStats_body tz yr sc us))
   \<and> (nonNegativeLogs roots \<and> allUsageWithModel roots
        \<and> totalTokens (calculateStats_body tz yr sc us) > 0 \<longrightarrow>
        \<bar>percentageSum (totalTokens (calculateStats_body tz yr sc us)) (allModelStats tz yr sc us)
          - 100\<bar> \<le> 201 / 2 ^ 53)
   \<and> (liveScalarsZero us \<and> allModelStats tz yr sc us \<noteq> [] \<longrightarrow>
        totalTokens (calculateStats_body tz yr sc us) > 0
        \<and> \<bar>percentageSum (totalTokens (calculateStats_body tz yr sc us)) (allModelStats tz yr sc us)
            - 100\<bar> \<le> 201 / 2 ^ 53)
   \<and> (totalTokens (calculateStats_body tz yr sc us) \<le> 0 \<longrightarrow>
        list_all (\<lambda>m. m_percentage m = 0) (topModels (calculateStats_body tz yr sc us)))
   \<and> (nonNegativeLogs roots \<and> totalTokens (calculateStats_body tz yr sc us) = 0 \<longrightarrow>
        topModels (calculateStats_body tz yr sc us) = [])"
proof (intro conjI impI)
  show "list_all
       (\<lambda>m. m_percentage m = percentageOf (totalTokens (calculateStats_body tz yr sc us)) (m_count m)
          \<and> (totalTokens (calculateStats_body tz yr sc us) > 0 \<longrightarrow>
               \<bar>m_percentage m
                 - 100 * (of_int (m_count m) / of_int (totalTokens (calculateStats_body tz yr sc us)))\<bar>
               \<le> 201 / 2 ^ 53
                    * (of_int (m_count m) / of_int (totalTokens (calculateStats_body tz yr sc us)))))
       (topModels (calculateStats_body tz yr sc us))"
    unfolding list_all_iff
  proof (intro ballI conjI impI)
    fix m
    assume m: "m \<in> set (topModels (calculateStats_body tz yr sc us))"
    show p: "m_percentage m = percentageOf (totalTokens (calculateStats_body tz yr sc us)) (m_count m)"
      using topModels_elem [OF m] by simp
    assume "totalTokens (calculateStats_body tz yr sc us) > 0"
    moreover have "m_count m \<ge> 0"
      using topModels_elem [OF m] by simp
    ultimately show "\<bar>m_percentage m
                 - 100 * (of_int (m_count m) / of_int (totalTokens (calculateStats_body tz yr sc us)))\<bar>
               \<le> 201 / 2 ^ 53
                    * (of_int (m_count m) / of_int (totalTokens (calculateStats_body tz yr sc us)))"
      unfolding p by (rule percentageOf_error)
  qed
next
  assume a: "nonNegativeLogs roots \<and> allUsageWithModel roots
        \<and> totalTokens (calculateStats_body tz yr sc us) > 0"
  then have "sum_list (map m_count (allModelStats tz yr sc us))
           = totalTokens (calculateStats_body tz yr sc us)"
    using assms by (intro counts_are_total [of roots us tz yr gp cc sc]) simp_all
  then show "\<bar>percentageSum (totalTokens (calculateStats_body tz yr sc us)) (allModelStats tz yr sc us)
          - 100\<bar> \<le> 201 / 2 ^ 53"
    using a nonneg_counts by (intro percentageSum_100) simp_all
next
  assume a: "liveScalarsZero us \<and> allModelStats tz yr sc us \<noteq> []"
  let ?pm = "positiveModels (mergeModelTokenTotals tz yr sc us)"
  have t: "totalTokens (calculateStats_body tz yr sc us) = sum_list (map snd ?pm)"
    using a mergeTokens_zero [of us "orEmpty (sc_modelUsage sc)" "mergeModelTokenTotals tz yr sc us"]
    by (simp add: body_scalars)
  have "?pm \<noteq> []"
    using a by (simp add: allModelStats_eq)
  then have "sum_list (map snd ?pm) > 0"
    by (simp add: positive_sum positiveModels_pos)
  then show p: "totalTokens (calculateStats_body tz yr sc us) > 0"
    by (simp add: t)
  have "sum_list (map m_count (allModelStats tz yr sc us))
           = totalTokens (calculateStats_body tz yr sc us)"
    by (simp add: t allModelStats_counts)
  then show "\<bar>percentageSum (totalTokens (calculateStats_body tz yr sc us)) (allModelStats tz yr sc us)
          - 100\<bar> \<le> 201 / 2 ^ 53"
    using p nonneg_counts by (intro percentageSum_100) simp_all
next
  assume "totalTokens (calculateStats_body tz yr sc us) \<le> 0"
  then show "list_all (\<lambda>m. m_percentage m = 0) (topModels (calculateStats_body tz yr sc us))"
    by (simp add: body_topModels list_all_iff withPercentage_sel percentageOf_def)
next
  assume "nonNegativeLogs roots \<and> totalTokens (calculateStats_body tz yr sc us) = 0"
  then show "topModels (calculateStats_body tz yr sc us) = []"
    using assms by (intro zero_total_no_models [of roots us tz yr gp cc sc]) simp_all
qed

text \<open>
  Two records of 2 and 1 tokens give the percentages \<open>66.66666666666666\<close> and
  \<open>33.33333333333333\<close>, whose sum is \<open>100 - 1 / 2 ^ 46\<close>; a record of 10 input tokens and one
  of -10 output tokens give the total 0 and one model of percentage 0; a record with a
  zero total gives the total 0 and no model; a record of another year leaves the models
  of the cache.
\<close>

theorem percentages_of_final_total_witness:
  "nonNegativeLogs [[[Some entryTwo, Some entryOne]]]
   \<and> allUsageWithModel [[[Some entryTwo, Some entryOne]]]
   \<and> totalTokens (calculateStats_body 0 2025 emptyCache
        (collectClaudeUsageSummary 0 2025 noPricing flatCost [[[Some entryTwo, Some entryOne]]])) = 3
   \<and> topModels (calculateStats_body 0 2025 emptyCache
        (collectClaudeUsageSummary 0 2025 noPricing flatCost [[[Some entryTwo, Some entryOne]]]))
      = [\<lparr>m_id = ''claude-a'', m_count = 2, m_percentage = 2345624805922133 / 35184372088832\<rparr>,
         \<lparr>m_id = ''claude-b'', m_count = 1, m_percentage = 2345624805922133 / 70368744177664\<rparr>]
   \<and> percentageSum
        (totalTokens (calculateStats_body 0 2025 emptyCache
          (collectClaudeUsageSummary 0 2025 noPricing flatCost [[[Some entryTwo, Some entryOne]]])))
        (allModelStats 0 2025 emptyCache
          (collectClaudeUsageSummary 0 2025 noPricing flatCost [[[Some entryTwo, Some entryOne]]]))
      = 100 - 1 / 2 ^ 46
   \<and> \<bar>percentageSum
        (totalTokens (calculateStats_body 0 2025 emptyCache
          (collectClaudeUsageSummary 0 2025 noPricing flatCost [[[Some entryTwo, Some entryOne]]])))
        (allModelStats 0 2025 emptyCache
          (collectClaudeUsageSummary 0 2025 noPricing flatCost [[[Some entryTwo, Some entryOne]]]))
       - 100\<bar> \<le> 201 / 2 ^ 53
   \<and> totalTokens (calculateStats_body 0 2025 emptyCache
        (collectClaudeUsageSummary 0 2025 noPricing flatCost [[[Some entryA, Some entryNegative]]])) \<le> 0
   \<and> topModels (calculateStats_body 0 2025 emptyCache
        (collectClaudeUsageSummary 0 2025 noPricing flatCost [[[Some entryA, Some entryNegative]]]))
      = [\<lparr>m_id = ''claude-a'', m_count = 10, m_percentage = 0\<rparr>]
   \<and> nonNegativeLogs [[[Some entryZero]]]
   \<and> totalTokens (calculateStats_body 0 2025 cacheModels
        (collectClaudeUsageSummary 0 2025 noPricing flatCost [[[Some entryZero]]])) = 0
   \<and> topModels (calculateStats_body 0 2025 cacheModels
        (collectClaudeUsageSummary 0 2025 noPricing flatCost [[[Some entryZero]]])) = []
   \<and> liveScalarsZero (collectClaudeUsageSummary 0 2025 noPricing flatCost [[[Some entryLastYear]]])
   \<and> allModelStats 0 2025 cacheModels
        (collectClaudeUsageSummary 0 2025 noPricing flatCost [[[Some entryLastYear]]]) \<noteq> []
   \<and> totalTokens (calculateStats_body 0 2025 cacheModels
        (collectClaudeUsageSummary 0 2025 noPricing flatCost [[[Some entryLastYear]]])) > 0
   \<and> topModels (calculateStats_body 0 2025 cacheModels
        (collectClaudeUsageSummary 0 2025 noPricing flatCost [[[Some entryLastYear]]]))
      = [\<lparr>m_id = ''claude-a'', m_count = 30, m_percentage = 75\<rparr>,
         \<lparr>m_id = ''claude-b'', m_count = 10, m_percentage = 25\<rparr>]"
proof -
  let ?r1 = "[[[Some entryTwo, Some entryOne]]]"
  let ?u1 = "collectClaudeUsageSummary 0 2025 noPricing flatCost ?r1"
  let ?r2 = "[[[Some entryA, Some entryNegative]]]"
  let ?u2 = "collectClaudeUsageSummary 0 2025 noPricing flatCost ?r2"
  let ?r3 = "[[[Some entryZero]]]"
  let ?u3 = "collectClaudeUsageSummary 0 2025 noPricing flatCost ?r3"
  let ?r4 = "[[[Some entryLastYear]]]"
  let ?u4 = "collectClaudeUsageSummary 0 2025 noPricing flatCost ?r4"
  have a1: "nonNegativeLogs ?r1" by code_simp
  have b1: "allUsageWithModel ?r1" by code_simp
  have c1: "totalTokens (calculateStats_body 0 2025 emptyCache ?u1) = 3" by code_simp
  have d1: "totalTokens (calculateStats_body 0 2025 emptyCache ?u1) > 0" by code_simp
  have e1: "topModels (calculateStats_body 0 2025 emptyCache ?u1)
      = [\<lparr>m_id = ''claude-a'', m_count = 2, m_percentage = 2345624805922133 / 35184372088832\<rparr>,
         \<lparr>m_id = ''claude-b'', m_count = 1, m_percentage = 2345624805922133 / 70368744177664\<rparr>]"
    by code_simp
  have f1: "percentageSum (totalTokens (calculateStats_body 0 2025 emptyCache ?u1))
        (allModelStats 0 2025 emptyCache ?u1) = 100 - 1 / 2 ^ 46"
    by code_simp
  have g1: "\<bar>percentageSum (totalTokens (calculateStats_body 0 2025 emptyCache ?u1))
        (allModelStats 0 2025 emptyCache ?u1) - 100\<bar> \<le> 201 / 2 ^ 53"
    using percentages_of_final_total
            [where roots = ?r1 and tz = 0 and yr = 2025 and gp = noPricing and cc = flatCost
               and sc = emptyCache, OF refl] a1 b1 d1
    by blast
  have a2: "totalTokens (calculateStats_body 0 2025 emptyCache ?u2) \<le> 0" by code_simp
  have b2: "topModels (calculateStats_body 0 2025 emptyCache ?u2)
      = [\<lparr>m_id = ''claude-a'', m_count = 10, m_percentage = 0\<rparr>]"
    by code_simp
  have c2: "list_all (\<lambda>m. m_percentage m = 0) (topModels (calculateStats_body 0 2025 emptyCache ?u2))"
    using percentages_of_final_total
            [where roots = ?r2 and tz = 0 and yr = 2025 and gp = noPricing and cc = flatCost
               and sc = emptyCache, OF refl] a2
    by blast
  have a3: "nonNegativeLogs ?r3" by code_simp
  have b3: "totalTokens (calculateStats_body 0 2025 cacheModels ?u3) = 0" by code_simp
  have c3: "topModels (calculateStats_body 0 2025 cacheModels ?u3) = []"
    using percentages_of_final_total
            [where roots = ?r3 and tz = 0 and yr = 2025 and gp = noPricing and cc = flatCost
               and sc = cacheModels, OF refl] a3 b3
    by blast
  have a4: "liveScalarsZero ?u4" by code_simp
  have b4: "allModelStats 0 2025 cacheModels ?u4 \<noteq> []" by code_simp
  have c4: "totalTokens (calculateStats_body 0 2025 cacheModels ?u4) > 0"
    using percentages_of_final_total
            [where roots = ?r4 and tz = 0 and yr = 2025 and gp = noPricing and cc = flatCost
               and sc = cacheModels, OF refl] a4 b4
    by blast
  have d4: "topModels (calculateStats_body 0 2025 cacheModels ?u4)
      = [\<lparr>m_id = ''claude-a'', m_count = 30, m_percentage = 75\<rparr>,
         \<lparr>m_id = ''claude-b'', m_count = 10, m_percentage = 25\<rparr>]"
    by code_simp
  show ?thesis
    using a1 b1 c1 e1 f1 g1 a2 b2 a3 b3 c3 a4 b4 c4 d4 by blast
qed

text \<open>
  The claim as stated fails: tokens of a record without a model identifier count in the
  live total but in no model.  With one such record of 10 tokens beside a record of 10
  tokens for a model, the percentages of the full model list sum to 50; with such a
  record alone the models are those of the cache, and their percentages of the live
  total sum to 400.
\<close>

theorem percentage_sum_counterexample:
  "totalTokens (calculateStats_body 0 2025 emptyCache
      (collectClaudeUsageSummary 0 2025 noPricing flatCost [[[Some entryA, Some entryNoModel]]])) = 20
   \<and> topModels (calculateStats_body 0 2025 emptyCache
      (collectClaudeUsageSummary 0 2025 noPricing flatCost [[[Some entryA, Some entryNoModel]]]))
      = [\<lparr>m_id = ''claude-a'', m_count = 10, m_percentage = 50\<rparr>]
   \<and> percentageSum 20 (allModelStats 0 2025 emptyCache
      (collectClaudeUsageSummary 0 2025 noPricing flatCost [[[Some entryA, Some entryNoModel]]])) = 50
   \<and> totalTokens (calculateStats_body 0 2025 cacheModels
      (collectClaudeUsageSummary 0 2025 noPricing flatCost [[[Some entryNoModel]]])) = 10
   \<and> topModels (calculateStats_body 0 2025 cacheModels
      (collectClaudeUsageSummary 0 2025 noPricing flatCost [[[Some entryNoModel]]]))
      = [\<lparr>m_id = ''claude-a'', m_count = 30, m_percentage = 300\<rparr>,
         \<lparr>m_id = ''claude-b'', m_count = 10, m_percentage = 100\<rparr>]
   \<and> percentageSum 10 (allModelStats 0 2025 cacheModels
      (collectClaudeUsageSummary 0 2025 noPricing flatCost [[[Some entryNoModel]]])) = 400"
  by code_simp

section \<open>Facts about the streak loop\<close>

lemma slice_snoc: "a \<le> i \<Longrightarrow> i < length xs \<Longrightarrow> slice xs a i @ [xs ! i] = slice xs a (Suc i)"
  by (simp add: slice_def Suc_diff_le take_Suc_conv_app_nth)

lemma slice_single: "i < length xs \<Longrightarrow> slice xs i (Suc i) = [xs ! i]"
  by (simp add: slice_def take_Suc_conv_app_nth)

lemma length_slice: "b \<le> length xs \<Longrightarrow> length (slice xs a b) = b - a"
  by (simp add: slice_def)

lemma slice_map_nth: "b \<le> length xs \<Longrightarrow> slice xs a b = map (nth xs) [a ..< b]"
  by (rule nth_equalityI) (simp_all add: slice_def)

lemma set_fold_set_add:
  "set (fold (\<lambda>i days. set_add days (f i)) is acc) = set acc \<union> f ` set is"
  by (induction "is" arbitrary: acc) (auto simp: set_set_add)

lemma streak_sim:
  assumes "1 \<le> i" "i \<le> length ds" "streakInv i st"
  shows "walkRuns (ds ! (i - 1)) (drop i ds) (slice ds (s_tempStreakStart st) i)
           (slice ds (s_maxStreakStart st) (s_maxStreakEnd st + 1))
         = slice ds (s_maxStreakStart (fold (streakStep ds) [i ..< length ds] st))
             (s_maxStreakEnd (fold (streakStep ds) [i ..< length ds] st) + 1)
       \<and> streakInv (length ds) (fold (streakStep ds) [i ..< length ds] st)"
  using assms
proof (induction "length ds - i" arbitrary: i st)
  case 0
  then show ?case by simp
next
  case (Suc n)
  then have lt: "i < length ds" by simp
  have u: "[i ..< length ds] = i # [Suc i ..< length ds]"
    using lt by (simp add: upt_conv_Cons)
  have d: "drop i ds = ds ! i # drop (Suc i) ds"
    using lt by (simp add: Cons_nth_drop_Suc)
  from Suc.prems have inv: "s_tempStreakStart st + s_tempStreak st = i"
    "s_maxStreakStart st + s_maxStreak st = s_maxStreakEnd st + 1" "s_maxStreakEnd st < i"
    by (simp_all add: streakInv_def)
  have lr: "length (slice ds (s_tempStreakStart st) i) = s_tempStreak st"
    using inv lt by (simp add: length_slice)
  have ll: "length (slice ds (s_maxStreakStart st) (Suc (s_maxStreakEnd st))) = s_maxStreak st"
    using inv lt by (simp add: length_slice)
  have lr': "length (slice ds (s_tempStreakStart st) (Suc i)) = Suc (s_tempStreak st)"
    using inv lt by (simp add: length_slice)
  have sn: "slice ds (s_tempStreakStart st) i @ [ds ! i] = slice ds (s_tempStreakStart st) (Suc i)"
    using inv lt by (simp add: slice_snoc)
  have inv': "streakInv (Suc i) (streakStep ds i st)"
    using inv by (simp add: streakInv_def streakStep_def Let_def)
  have n: "n = length ds - Suc i" using Suc.hyps by simp
  have one: "1 \<le> Suc i" "Suc i \<le> length ds" using lt by simp_all
  note IH = Suc.hyps(1) [OF n one inv']
  have step: "walkRuns (ds ! (i - 1)) (drop i ds) (slice ds (s_tempStreakStart st) i)
           (slice ds (s_maxStreakStart st) (s_maxStreakEnd st + 1))
        = walkRuns (ds ! i) (drop (Suc i) ds)
            (slice ds (s_tempStreakStart (streakStep ds i st)) (Suc i))
            (slice ds (s_maxStreakStart (streakStep ds i st)) (s_maxStreakEnd (streakStep ds i st) + 1))"
    using lt inv by (simp add: d streakStep_def Let_def lr' ll sn slice_single)
  show ?case
    using IH step by (simp add: u)
qed

lemma streakLoop_longestRun:
  assumes "ds \<noteq> []"
  shows "longestRun ds = slice ds (s_maxStreakStart (streakLoop ds)) (s_maxStreakEnd (streakLoop ds) + 1)
     \<and> streakInv (length ds) (streakLoop ds)"
proof -
  let ?st0 = "\<lparr>s_maxStreak = 1, s_tempStreak = 1, s_tempStreakStart = 0,
        s_maxStreakStart = 0, s_maxStreakEnd = 0\<rparr>"
  have l: "1 \<le> length ds" using assms by (cases ds) simp_all
  have i0: "streakInv 1 ?st0" by (simp add: streakInv_def)
  have s: "slice ds 0 (Suc 0) = [ds ! 0]"
    using assms by (cases ds) (simp_all add: slice_def)
  have lr: "longestRun ds = walkRuns (ds ! 0) (drop 1 ds) [ds ! 0] [ds ! 0]"
    using assms by (cases ds) (simp_all add: longestRun_def)
  show ?thesis
    using streak_sim [OF _ l i0] by (simp add: streakLoop_def s lr)
qed

lemma calculateStreaks_longestRun:
  "k_maxStreak (calculateStreaks da yr) = length (longestRun (activeDatesOf da yr))
   \<and> set (k_maxStreakDays (calculateStreaks da yr)) = set (longestRun (activeDatesOf da yr))"
proof (cases "activeDatesOf da yr = []")
  case True
  then show ?thesis
    by (simp add: calculateStreaks_def activeDatesOf_def longestRun_def Let_def)
next
  case False
  let ?ds = "activeDatesOf da yr"
  let ?st = "streakLoop ?ds"
  from streakLoop_longestRun [OF False]
  have lr: "longestRun ?ds = slice ?ds (s_maxStreakStart ?st) (s_maxStreakEnd ?st + 1)"
    and inv: "streakInv (length ?ds) ?st" by simp_all
  have b: "s_maxStreakEnd ?st + 1 \<le> length ?ds"
    "s_maxStreakStart ?st + s_maxStreak ?st = s_maxStreakEnd ?st + 1"
    using inv by (simp_all add: streakInv_def)
  have c: "calculateStreaks da yr
     = \<lparr>k_maxStreak = s_maxStreak ?st,
        k_maxStreakDays = fold (\<lambda>i days. set_add days (?ds ! i))
           [s_maxStreakStart ?st ..< s_maxStreakEnd ?st + 1] []\<rparr>"
    using False by (simp add: calculateStreaks_def activeDatesOf_def Let_def)
  have len: "length (longestRun ?ds) = s_maxStreak ?st"
    using b by (simp add: lr length_slice)
  have st: "set (longestRun ?ds) = nth ?ds ` set [s_maxStreakStart ?st ..< s_maxStreakEnd ?st + 1]"
    using b(1) by (simp only: lr slice_map_nth set_map)
  show ?thesis
    by (simp only: c len st set_fold_set_add Streaks.select_convs) simp
qed

section \<open>Max streak\<close>

text \<open>
  Claim C5.  \<open>calculateStreaks\<close> takes the keys of the daily-activity map that start with
  the year, sorted ascending, and walks consecutive pairs: a gap of exactly one calendar
  day extends the current run, any other gap resets it to length 1, and the longest run
  seen is kept, the first found winning a tie.  \<open>maxStreak\<close> is the length of that run
  and \<open>maxStreakDays\<close> its dates.  Activity on 2025-01-01..03 and 2025-01-10..13 gives
  \<open>maxStreak\<close> 4 with the days 10 to 13; of two runs of three days the first is kept.
\<close>

theorem max_streak_walk:
  "sorted (activeDatesOf da yr)
   \<and> set (activeDatesOf da yr) = {date \<in> fst ` set da. startsWith date (String_of yr)}
   \<and> k_maxStreak (calculateStreaks da yr) = length (longestRun (activeDatesOf da yr))
   \<and> set (k_maxStreakDays (calculateStreaks da yr)) = set (longestRun (activeDatesOf da yr))
   \<and> calculateStreaks exampleDays 2025
       = \<lparr>k_maxStreak = 4,
          k_maxStreakDays = [''2025-01-10'', ''2025-01-11'', ''2025-01-12'', ''2025-01-13'']\<rparr>
   \<and> calculateStreaks tieDays 2025
       = \<lparr>k_maxStreak = 3,
          k_maxStreakDays = [''2025-02-27'', ''2025-02-28'', ''2025-03-01'']\<rparr>"
proof -
  have a: "sorted (activeDatesOf da yr)"
    by (simp add: activeDatesOf_def)
  have b: "set (activeDatesOf da yr) = {date \<in> fst ` set da. startsWith date (String_of yr)}"
    by (auto simp: activeDatesOf_def)
  have c: "calculateStreaks exampleDays 2025
       = \<lparr>k_maxStreak = 4,
          k_maxStreakDays = [''2025-01-10'', ''2025-01-11'', ''2025-01-12'', ''2025-01-13'']\<rparr>"
    by code_simp
  have d: "calculateStreaks tieDays 2025
       = \<lparr>k_maxStreak = 3,
          k_maxStreakDays = [''2025-02-27'', ''2025-02-28'', ''2025-03-01'']\<rparr>"
    by code_simp
  show ?thesis
    using a b c d calculateStreaks_longestRun [of da yr] by blast
qed

section \<open>Monthly distribution\<close>


section \<open>Missing data source\<close>

lemma resolve_none: "noMarker env \<Longrightarrow> resolveClaudeDataPath env = None"
  by (auto simp: noMarker_def resolveClaudeDataPath_def Let_def split: option.splits)

lemma collect_no_roots: "collectClaudeUsageSummary tz yr gp cc [] = emptyUsage"
  by (simp add: collectClaudeUsageSummary_def summaryOf_def initialState_def emptyUsage_def)

text \<open>
  Claim C6, as amended.  When no candidate directory holds the cache file, the source
  locator returns an empty result without raising and reports that no data exists, and
  with no root directory the usage reducer returns the zero-valued summary; the cache
  reader raises the error \<open>Claude data not found\<close>, and so does \<open>calculateStats\<close>.
\<close>

theorem missing_source:
  assumes "noMarker env"
  shows "resolveClaudeDataPath env = None
    \<and> \<not> checkClaudeDataExists env
    \<and> collectClaudeUsageSummary tz yr gp cc [] = emptyUsage
    \<and> loadClaudeStatsCache JSON_parse env = Inl (Error ''Claude data not found'')
    \<and> calculateStats tz yr JSON_parse gp cc env roots = Inl (Error ''Claude data not found'')"
  using assms
  by (simp add: resolve_none checkClaudeDataExists_def collect_no_roots
        loadClaudeStatsCache_def calculateStats_def)

theorem missing_source_witness:
  "noMarker bareEnv
   \<and> resolveClaudeDataPath bareEnv = None
   \<and> collectClaudeUsageSummary 0 2025 noPricing flatCost [] = emptyUsage
   \<and> loadClaudeStatsCache parseNothing bareEnv = Inl (Error ''Claude data not found'')"
proof -
  have h: "noMarker bareEnv"
    by (simp add: noMarker_def bareEnv_def existsSync_def)
  show ?thesis
    using h missing_source [OF h, of 0 2025 noPricing flatCost parseNothing "[]"] by simp
qed

text \<open>
  The claim as stated fails: with no cache file the engine raises instead of returning
  an empty snapshot.
\<close>

theorem missing_cache_raises_counterexample:
  "calculateStats 0 2025 parseNothing noPricing flatCost bareEnv []
     = Inl (Error ''Claude data not found'')"
  by (simp add: calculateStats_def loadClaudeStatsCache_def resolveClaudeDataPath_def
        bareEnv_def existsSync_def Let_def)

section \<open>Year filtering\<close>

text \<open>
  The reducer keeps the requested year: every key of its daily-activity map is the local
  date of a time of that year, and starts with the digits of the year.
\<close>

lemma ball_map_set:
  "(\<forall>x\<in>set (map_set m k v). P (fst x)) = (P k \<and> (\<forall>x\<in>set m. P (fst x)))"
proof -
  have "(\<forall>x\<in>set (map_set m k v). P (fst x)) = (\<forall>y\<in>fst ` set (map_set m k v). P y)"
    by simp
  also have "\<dots> = (\<forall>y\<in>insert k (fst ` set m). P y)"
    by (simp only: keys_map_set)
  finally show ?thesis by simp
qed

lemma reduceUsage_daily: "r_dailyActivity (reduceUsage gp cc e u st) = r_dailyActivity st"
  by (simp add: reduceUsage_def Let_def split: option.splits)

lemma processLine_keys:
  assumes "\<forall>k \<in> fst ` set (r_dailyActivity st). keyOfYear tz yr k"
  shows "\<forall>k \<in> fst ` set (r_dailyActivity (processLine tz yr gp cc l st)). keyOfYear tz yr k"
proof (cases l)
  case None
  then show ?thesis using assms by (simp add: processLine_def)
next
  case (Some e)
  have "keyOfYear tz yr (formatDateKey tz t)" if "getFullYear tz t = yr" for t
    using that by (auto simp: keyOfYear_def)
  then show ?thesis
    using assms Some
    by (simp add: processLine_def processEntry_def Let_def reduceUsage_daily ball_map_set
          split: option.splits)
qed

lemma fold_processLine_keys:
  "\<forall>k \<in> fst ` set (r_dailyActivity st). keyOfYear tz yr k
     \<Longrightarrow> \<forall>k \<in> fst ` set (r_dailyActivity (fold (processLine tz yr gp cc) ls st)). keyOfYear tz yr k"
proof (induction ls arbitrary: st)
  case Nil
  then show ?case by simp
next
  case (Cons l ls)
  have "\<forall>k \<in> fst ` set (r_dailyActivity (processLine tz yr gp cc l st)). keyOfYear tz yr k"
    using Cons.prems by (rule processLine_keys)
  then have "\<forall>k \<in> fst ` set (r_dailyActivity
      (fold (processLine tz yr gp cc) ls (processLine tz yr gp cc l st))). keyOfYear tz yr k"
    by (rule Cons.IH)
  then show ?case by simp
qed

lemma formatDateKey_prefix: "startsWith (formatDateKey tz t) (String_of (getFullYear tz t))"
  by (simp add: formatDateKey_def startsWith_def Let_def)

lemma reducer_keys_of_year:
  assumes "k \<in> fst ` set (u_dailyActivity (collectClaudeUsageSummary tz yr gp cc roots))"
  shows "keyOfYear tz yr k \<and> startsWith k (String_of yr)"
proof -
  have "\<forall>k \<in> fst ` set (r_dailyActivity (fold (processLine tz yr gp cc) (concat (concat roots))
          (initialState :: 'a CollectState))). keyOfYear tz yr k"
    by (rule fold_processLine_keys) (simp add: initialState_def)
  then have "keyOfYear tz yr k"
    using assms by (auto simp: collectClaudeUsageSummary_def fold_processFiles_flat summaryOf_def)
  then show ?thesis
    using formatDateKey_prefix by (auto simp: keyOfYear_def)
qed

text \<open>
  Claim C3 (no event or cache entry whose date lies outside the requested year
  contributes to the snapshot's daily activity, streaks or weekday distribution) fails
  on the code for cache entries.  In a zone five hours west of UTC, with no live activity
  and a cache whose only day is 2026-01-01, the snapshot for 2025 holds that day in its
  daily activity, counts its three messages and adds them to Wednesday's bucket: the
  date-only key is read as midnight UTC, which is still 2025 on the local calendar.  In
  a zone at UTC the day is filtered out.  The max streak, which filters the keys by
  their prefix, is not affected, and neither is the reducer, which filters full
  timestamps.
\<close>

theorem year_filter_west_of_utc:
  "dailyActivity (calculateStats_body (- 300) 2025 cacheNewYear emptyUsage)
     = [(''2026-01-01'', 3)]
   \<and> totalMessages (calculateStats_body (- 300) 2025 cacheNewYear emptyUsage) = 3
   \<and> w_counts (weekdayActivity (calculateStats_body (- 300) 2025 cacheNewYear emptyUsage))
       = [0, 0, 0, 3, 0, 0, 0]
   \<and> maxStreak (calculateStats_body (- 300) 2025 cacheNewYear emptyUsage) = 0
   \<and> dailyActivity (calculateStats_body 0 2025 cacheNewYear emptyUsage) = []"
  by code_simp

end
